theory Spec2Isabelle
  imports Complex_Main "HOL-Library.Sublist"
begin

section \<open>Python values and exceptions\<close>

text \<open>
  The two modules exchange dynamically typed values: an extracted candidate is a
  string, an integer, \<open>None\<close>, a tuple or a list, depending on the task. Candidates
  are modelled by \<open>pyval\<close>; Python's \<open>==\<close> on these values is structural equality
  (booleans and floats, whose equality crosses types, are not part of the model).
  A raised exception is the \<open>Inl\<close> branch of a sum.

  Strings are lists of 8-bit characters, so the model covers texts whose code points
  are below 256.
\<close>

datatype pyval =
    PStr string
  | PInt int
  | PNone
  | PTuple "pyval list"
  | PList "pyval list"

datatype pyerr =
    TypeError
  | ValueError
  | IndexError
  | KeyError
  | AttributeError
  | SyntaxError
  | UnboundLocalError

text \<open>Truth value of a candidate (\<open>not x\<close> is its negation).\<close>

fun truthy :: "pyval \<Rightarrow> bool" where
  "truthy (PStr s) = (s \<noteq> [])"
| "truthy (PInt i) = (i \<noteq> 0)"
| "truthy PNone = False"
| "truthy (PTuple xs) = (xs \<noteq> [])"
| "truthy (PList xs) = (xs \<noteq> [])"

text \<open>Iteration: a string yields its characters as one-character strings.\<close>

fun py_iter :: "pyval \<Rightarrow> pyerr + pyval list" where
  "py_iter (PStr s) = Inr (map (\<lambda>c. PStr [c]) s)"
| "py_iter (PTuple xs) = Inr xs"
| "py_iter (PList xs) = Inr xs"
| "py_iter (PInt i) = Inl TypeError"
| "py_iter PNone = Inl TypeError"

fun py_len :: "pyval \<Rightarrow> pyerr + int" where
  "py_len (PStr s) = Inr (int (length s))"
| "py_len (PTuple xs) = Inr (int (length xs))"
| "py_len (PList xs) = Inr (int (length xs))"
| "py_len (PInt i) = Inl TypeError"
| "py_len PNone = Inl TypeError"

text \<open>Subscription \<open>v[i]\<close> with an integer index; a negative index counts from the end.\<close>

definition py_getitem :: "pyval \<Rightarrow> int \<Rightarrow> pyerr + pyval" where
  "py_getitem v i =
     (case py_iter v of
        Inl e \<Rightarrow> Inl e
      | Inr xs \<Rightarrow>
          if i < - int (length xs) \<or> int (length xs) \<le> i then Inl IndexError
          else if i < 0 then Inr (xs ! nat (int (length xs) + i))
          else Inr (xs ! nat i))"

text \<open>The operator \<open>+\<close>: concatenation or integer addition on equal kinds, a type error otherwise.\<close>

fun py_add :: "pyval \<Rightarrow> pyval \<Rightarrow> pyerr + pyval" where
  "py_add (PStr a) (PStr b) = Inr (PStr (a @ b))"
| "py_add (PInt a) (PInt b) = Inr (PInt (a + b))"
| "py_add (PTuple a) (PTuple b) = Inr (PTuple (a @ b))"
| "py_add (PList a) (PList b) = Inr (PList (a @ b))"
| "py_add a b = Inl TypeError"

text \<open>Lists are unhashable, and so is a tuple that holds one.\<close>

fun hashable :: "pyval \<Rightarrow> bool" where
  "hashable (PStr s) = True"
| "hashable (PInt i) = True"
| "hashable PNone = True"
| "hashable (PTuple xs) = list_all hashable xs"
| "hashable (PList xs) = False"

text \<open>
  Lookup of a candidate value in a dictionary whose keys are strings (\<open>k in d\<close> and
  \<open>d[k]\<close> together): hashing an unhashable key raises, and a key that is not a
  string equals no key of the dictionary.
\<close>

definition dict_get :: "(string \<rightharpoonup> 'v) \<Rightarrow> pyval \<Rightarrow> pyerr + 'v option" where
  "dict_get d k =
     (if \<not> hashable k then Inl TypeError
      else Inr (case k of PStr s \<Rightarrow> d s | _ \<Rightarrow> None))"

text \<open>The unpacking \<open>a, b, c = step\<close>.\<close>

definition unpack3 :: "pyval \<Rightarrow> pyerr + pyval \<times> pyval \<times> pyval" where
  "unpack3 step =
     (case py_iter step of
        Inl e \<Rightarrow> Inl e
      | Inr xs \<Rightarrow> (case xs of [a, b, c] \<Rightarrow> Inr (a, b, c) | _ \<Rightarrow> Inl ValueError))"

text \<open>\<open>str.lower\<close> on 8-bit characters: the ASCII and the Latin-1 capital letters.\<close>

definition lower_char :: "char \<Rightarrow> char" where
  "lower_char c =
     (let n = (of_char c :: nat)
      in if (65 \<le> n \<and> n \<le> 90) \<or> (192 \<le> n \<and> n \<le> 222 \<and> n \<noteq> 215)
         then char_of (n + 32) else c)"

definition lower :: "string \<Rightarrow> string" where
  "lower s = map lower_char s"

text \<open>\<open>s.strip(chars)\<close>: drop the characters of \<open>chars\<close> from both ends.\<close>

definition strip_chars :: "char list \<Rightarrow> string \<Rightarrow> string" where
  "strip_chars cs s =
     rev (dropWhile (\<lambda>c. c \<in> set cs) (rev (dropWhile (\<lambda>c. c \<in> set cs) s)))"


section \<open>Floating-point numbers\<close>

text \<open>
  The costs and the budget of a travel task are Python floats: IEEE 754 binary64
  numbers. A finite number is modelled by the rational it denotes (the sign of zero,
  which neither \<open>+\<close> nor \<open>>\<close> tells apart, is not kept); the two infinities and the
  not-a-number are values of their own. \<open>to_double\<close> rounds a rational to the nearest
  binary64 number, ties to the even significand: the significand has 53 bits, the
  least exponent of the last place is \<open>-1074\<close>, and a result of magnitude
  \<open>2 ^ 1024\<close> or more is an infinity.
\<close>

datatype pyfloat = Fin rat | PInf | NInf | NaN

text \<open>The number of binary digits of a natural number.\<close>

fun bits :: "nat \<Rightarrow> nat" where
  "bits n = (if n = 0 then 0 else Suc (bits (n div 2)))"

declare bits.simps [simp del]

definition pow2 :: "int \<Rightarrow> rat" where
  "pow2 e = (if 0 \<le> e then 2 ^ nat e else 1 / 2 ^ nat (- e))"

text \<open>The exponent \<open>e\<close> with \<open>pow2 e \<le> a < pow2 (e + 1)\<close>, for a positive \<open>a\<close>.\<close>

definition ilog2 :: "rat \<Rightarrow> int" where
  "ilog2 a =
     (if 1 \<le> a then int (bits (nat \<lfloor>a\<rfloor>)) - 1
      else - int (bits (nat (\<lceil>1 / a\<rceil> - 1))))"

definition round_even :: "rat \<Rightarrow> int" where
  "round_even x =
     (let f = \<lfloor>x\<rfloor>; r = x - of_int f
      in if r < 1 / 2 then f
         else if 1 / 2 < r then f + 1
         else if even f then f else f + 1)"

definition to_double :: "rat \<Rightarrow> pyfloat" where
  "to_double x =
     (if x = 0 then Fin 0
      else
        (let a = \<bar>x\<bar>;
             q = max (ilog2 a - 52) (- 1074);
             y = of_int (round_even (a / pow2 q)) * pow2 q
         in if pow2 1024 \<le> y then (if 0 < x then PInf else NInf)
            else Fin (if 0 < x then y else - y)))"

text \<open>Addition and the comparisons \<open>>\<close> and \<open><=\<close> of floats.\<close>

fun fadd :: "pyfloat \<Rightarrow> pyfloat \<Rightarrow> pyfloat" where
  "fadd (Fin x) (Fin y) = to_double (x + y)"
| "fadd NaN b = NaN"
| "fadd a NaN = NaN"
| "fadd PInf NInf = NaN"
| "fadd NInf PInf = NaN"
| "fadd PInf b = PInf"
| "fadd a PInf = PInf"
| "fadd NInf b = NInf"
| "fadd a NInf = NInf"

fun fgt :: "pyfloat \<Rightarrow> pyfloat \<Rightarrow> bool" where
  "fgt (Fin x) (Fin y) = (y < x)"
| "fgt NaN b = False"
| "fgt a NaN = False"
| "fgt PInf b = (b \<noteq> PInf)"
| "fgt NInf b = False"
| "fgt (Fin x) PInf = False"
| "fgt (Fin x) NInf = True"

fun fle :: "pyfloat \<Rightarrow> pyfloat \<Rightarrow> bool" where
  "fle (Fin x) (Fin y) = (x \<le> y)"
| "fle NaN b = False"
| "fle a NaN = False"
| "fle NInf b = True"
| "fle a PInf = True"
| "fle PInf b = False"
| "fle (Fin x) NInf = False"


section \<open>Scoring (answer_scoring.py)\<close>

text \<open>
  The ground truth of a travel task. \<open>steps\<close> is the minimum number of distinct cities,
  \<open>graph\<close> maps a city to its reachable cities and the modes permitted on each edge,
  \<open>costs\<close> maps the concatenation origin+destination+mode to a cost. The costs and
  the budget are floats, as the source declares them.
\<close>

record travel_constraint =
  city_start :: string
  city_end :: string
  steps :: int
  total_budget :: pyfloat
  graph :: "string \<rightharpoonup> (string \<rightharpoonup> string list)"
  costs :: "string \<rightharpoonup> pyfloat"

text \<open>
  The test of \<open>_validate_connectivity\<close> on one step,
  \<open>city1 not in graph or city2 not in graph[city1] or mode not in graph[city1][city2]\<close>,
  evaluated left to right; the last membership is in a list and compares by equality.
\<close>

definition edge_missing ::
  "(string \<rightharpoonup> (string \<rightharpoonup> string list)) \<Rightarrow> pyval \<Rightarrow> pyval \<Rightarrow> pyval \<Rightarrow> pyerr + bool" where
  "edge_missing g city1 city2 mode =
     (case dict_get g city1 of
        Inl e \<Rightarrow> Inl e
      | Inr None \<Rightarrow> Inr True
      | Inr (Some nbrs) \<Rightarrow>
          (case dict_get nbrs city2 of
             Inl e \<Rightarrow> Inl e
           | Inr None \<Rightarrow> Inr True
           | Inr (Some modes) \<Rightarrow> Inr (mode \<notin> set (map PStr modes))))"

text \<open>
  The loop of \<open>_validate_connectivity\<close> with its two variables \<open>visited_cities\<close> and
  \<open>current_city\<close>, and the final test on the number of cities.
\<close>

fun connectivity_loop ::
  "(string \<rightharpoonup> (string \<rightharpoonup> string list)) \<Rightarrow> int \<Rightarrow> pyval list \<Rightarrow> pyval set \<Rightarrow> pyval
     \<Rightarrow> pyerr + bool" where
  "connectivity_loop g num_cities [] visited_cities current_city =
     (if int (card visited_cities) < num_cities then Inr False else Inr True)"
| "connectivity_loop g num_cities (step # rest) visited_cities current_city =
     (case py_len step of
        Inl e \<Rightarrow> Inl e
      | Inr l \<Rightarrow>
          if l \<noteq> 3 then Inr False
          else
            (case unpack3 step of
               Inl e \<Rightarrow> Inl e
             | Inr (city1, city2, mode) \<Rightarrow>
                 (case edge_missing g city1 city2 mode of
                    Inl e \<Rightarrow> Inl e
                  | Inr missing \<Rightarrow>
                      if missing then Inr False
                      else if city1 \<noteq> current_city then Inr False
                      else connectivity_loop g num_cities rest
                             (insert city2 (insert city1 visited_cities)) city2)))"

definition validate_connectivity ::
  "string \<Rightarrow> int \<Rightarrow> (string \<rightharpoonup> (string \<rightharpoonup> string list)) \<Rightarrow> pyval \<Rightarrow> pyerr + bool" where
  "validate_connectivity city_start' num_cities g user_solution =
     (case py_iter user_solution of
        Inl e \<Rightarrow> Inl e
      | Inr sol \<Rightarrow> connectivity_loop g num_cities sol {} (PStr city_start'))"

text \<open>
  The body of the \<open>try\<close> of \<open>_validate_budget\<close>: build the key
  \<open>city1 + city2 + mode\<close> and look it up in the cost table.
\<close>

definition cost_lookup ::
  "(string \<rightharpoonup> pyfloat) \<Rightarrow> pyval \<Rightarrow> pyval \<Rightarrow> pyval \<Rightarrow> pyerr + pyfloat option" where
  "cost_lookup cs city1 city2 mode =
     (case py_add city1 city2 of
        Inl e \<Rightarrow> Inl e
      | Inr k1 \<Rightarrow> (case py_add k1 mode of Inl e \<Rightarrow> Inl e | Inr key \<Rightarrow> dict_get cs key))"

text \<open>
  The loop of \<open>_validate_budget\<close>. The unpacking stands before the \<open>try\<close>; inside it
  only a \<open>TypeError\<close> is caught. \<open>total_cost += costs[...]\<close> is a float addition and
  \<open>total_cost > total_budget\<close> a float comparison; the total starts at the integer 0,
  which adds and compares as the float zero does.
\<close>

fun budget_loop ::
  "(string \<rightharpoonup> pyfloat) \<Rightarrow> pyfloat \<Rightarrow> pyval list \<Rightarrow> pyfloat \<Rightarrow> pyerr + bool" where
  "budget_loop cs budget [] total_cost =
     (if fgt total_cost budget then Inr False else Inr True)"
| "budget_loop cs budget (step # rest) total_cost =
     (case unpack3 step of
        Inl e \<Rightarrow> Inl e
      | Inr (city1, city2, mode) \<Rightarrow>
          (case cost_lookup cs city1 city2 mode of
             Inl e \<Rightarrow> (if e = TypeError then Inr False else Inl e)
           | Inr None \<Rightarrow> Inr False
           | Inr (Some c) \<Rightarrow> budget_loop cs budget rest (fadd total_cost c)))"

definition validate_budget ::
  "(string \<rightharpoonup> pyfloat) \<Rightarrow> pyfloat \<Rightarrow> pyval \<Rightarrow> pyerr + bool" where
  "validate_budget cs budget user_solution =
     (case py_iter user_solution of
        Inl e \<Rightarrow> Inl e
      | Inr sol \<Rightarrow> budget_loop cs budget sol (Fin 0))"

definition score_travel_eval :: "travel_constraint \<Rightarrow> pyval \<Rightarrow> pyerr + bool" where
  "score_travel_eval correct_answer user_solution =
     (if \<not> truthy user_solution then Inr False
      else
        (case py_getitem user_solution (- 1) of
           Inl e \<Rightarrow> Inl e
         | Inr last_step \<Rightarrow>
             (case py_getitem last_step 1 of
                Inl e \<Rightarrow> Inl e
              | Inr dest \<Rightarrow>
                  if dest \<noteq> PStr (city_end correct_answer) then Inr False
                  else
                    (case validate_connectivity (city_start correct_answer)
                            (steps correct_answer) (graph correct_answer) user_solution of
                       Inl e \<Rightarrow> Inl e
                     | Inr linked \<Rightarrow>
                         if \<not> linked then Inr False
                         else
                           (case validate_budget (costs correct_answer)
                                   (total_budget correct_answer) user_solution of
                              Inl e \<Rightarrow> Inl e
                            | Inr affordable \<Rightarrow> if \<not> affordable then Inr False else Inr True)))))"

text \<open>
  The ground truth of a counting task is a mapping whose values are read in insertion
  order: an association list. \<open>zip\<close> stops at the shorter of its two arguments.
\<close>

definition score_count_eval :: "(string \<times> int) list \<Rightarrow> pyval \<Rightarrow> pyerr + bool" where
  "score_count_eval correct_answer answer =
     (if \<not> truthy answer then Inr False
      else
        (case py_iter answer of
           Inl e \<Rightarrow> Inl e
         | Inr xs \<Rightarrow>
             Inr (list_all (\<lambda>(a1, a2). a1 = PInt a2) (zip xs (map snd correct_answer)))))"

definition score_mathgap_eval :: "pyval \<Rightarrow> pyval \<Rightarrow> bool" where
  "score_mathgap_eval correct_answer answer = (correct_answer = answer)"

definition score_logic_eval :: "string \<Rightarrow> pyval \<Rightarrow> pyerr + bool" where
  "score_logic_eval correct_answer answer =
     (if \<not> truthy answer then Inr False
      else (case answer of
              PStr s \<Rightarrow> Inr (lower correct_answer = lower s)
            | _ \<Rightarrow> Inl AttributeError))"

definition score_unpuzzle_eval :: "string \<Rightarrow> string \<Rightarrow> bool" where
  "score_unpuzzle_eval s1 s2 =
     (strip_chars '' '' (lower s1) = strip_chars '' '' (lower s2))"

text \<open>
  A task descriptor. The field \<open>answer\<close> holds the ground truth in the shape its task
  family stores; \<open>k\<close> is present on counting tasks. \<open>score_eval\<close> hands the ground
  truth to the scorer of the task's family. The source does not test the shape of the
  ground truth; a descriptor whose ground truth has another shape than the scorer of
  its family takes is outside the types the scorers declare, and the model, which must
  give it a value, reports a type error there (the source may return a verdict
  instead, as it does for a falsy candidate).
\<close>

datatype ground_truth =
    Count_answer "(string \<times> int) list"
  | Mathgap_answer pyval
  | Travel_answer travel_constraint
  | Logic_answer string

record json_entry =
  task :: string
  k :: "int option"
  answer :: ground_truth

definition score_eval :: "json_entry \<Rightarrow> pyval \<Rightarrow> pyerr + bool" where
  "score_eval entry ans =
     (if task entry \<in> set [''character_count'', ''word_count''] then
        (case answer entry of
           Count_answer m \<Rightarrow> score_count_eval m ans | _ \<Rightarrow> Inl TypeError)
      else if task entry \<in> set [''mathgap_diverse'', ''mathgap_irrelevant''] then
        (case answer entry of
           Mathgap_answer v \<Rightarrow> Inr (score_mathgap_eval v ans) | _ \<Rightarrow> Inl TypeError)
      else if task entry = ''travel'' then
        (case answer entry of
           Travel_answer c \<Rightarrow> score_travel_eval c ans | _ \<Rightarrow> Inl TypeError)
      else if task entry \<in> set [''logic_negation'', ''logic_evaluation''] then
        (case answer entry of
           Logic_answer s \<Rightarrow> score_logic_eval s ans | _ \<Rightarrow> Inl TypeError)
      else Inr False)"


section \<open>Regular expressions\<close>

text \<open>
  The extractors search the response with patterns of Python's \<open>re\<close> module. The
  patterns of the source use a small fragment of it: single characters and character
  classes, the quantifiers \<open>*\<close>, \<open>*?\<close>, \<open>+\<close>, \<open>+?\<close>, \<open>?\<close> and \<open>{2}\<close>, one
  capturing group, and the anchor \<open>$\<close>. A pattern is a list of items, and
  \<open>match_at\<close> is the backtracking matcher: it returns the first match in the order in
  which \<open>re\<close> explores the alternatives (a greedy quantifier tries the longest
  repetition first, a lazy one the shortest).
\<close>

datatype cls =
    Lit char
  | Dot
  | AnyChar
  | OneOf "char list"
  | NoneOf "char list"
  | Digit

text \<open>
  \<open>Dot\<close> is \<open>.\<close> (any character but the newline), \<open>AnyChar\<close> is \<open>.\<close> under
  \<open>re.DOTALL\<close>, \<open>Digit\<close> is \<open>\d\<close> (on 8-bit characters: the ten ASCII digits).
\<close>

fun in_cls :: "cls \<Rightarrow> char \<Rightarrow> bool" where
  "in_cls (Lit c) x = (x = c)"
| "in_cls Dot x = (x \<noteq> CHR 0x0A)"
| "in_cls AnyChar x = True"
| "in_cls (OneOf cs) x = (x \<in> set cs)"
| "in_cls (NoneOf cs) x = (x \<notin> set cs)"
| "in_cls Digit x = (x \<in> set ''0123456789'')"

text \<open>
  \<open>Chr c\<close> is one character of the class, \<open>Star c\<close> is \<open>c*\<close>, \<open>StarLazy c\<close> is \<open>c*?\<close>,
  \<open>Opt body\<close> is \<open>(?:body)?\<close>, \<open>GOpen\<close> and \<open>GClose\<close> are the parentheses of the
  capturing group, \<open>Eos\<close> is \<open>$\<close>.
\<close>

datatype item =
    Chr cls
  | Star cls
  | StarLazy cls
  | Opt "item list"
  | GOpen
  | GClose
  | Eos

fun weight :: "item \<Rightarrow> nat" where
  "weight (Opt body) = Suc (Suc (sum_list (map weight body)))"
| "weight i = 1"

definition pweight :: "item list \<Rightarrow> nat" where
  "pweight p = sum_list (map weight p)"

text \<open>
  The result of a match: the text that was left where the group opened, the text that
  was left where it closed (both \<open>None\<close> when the group took no part in the match),
  and the text after the match.
\<close>

type_synonym mres = "string option \<times> string option \<times> string"

function match_at :: "item list \<Rightarrow> string \<Rightarrow> mres option" where
  "match_at [] s = Some (None, None, s)"
| "match_at (Chr c # p) s =
     (case s of [] \<Rightarrow> None | x # xs \<Rightarrow> if in_cls c x then match_at p xs else None)"
| "match_at (Star c # p) s =
     (case s of
        [] \<Rightarrow> match_at p []
      | x # xs \<Rightarrow>
          if in_cls c x
          then (case match_at (Star c # p) xs of
                  Some r \<Rightarrow> Some r
                | None \<Rightarrow> match_at p (x # xs))
          else match_at p (x # xs))"
| "match_at (StarLazy c # p) s =
     (case match_at p s of
        Some r \<Rightarrow> Some r
      | None \<Rightarrow>
          (case s of
             [] \<Rightarrow> None
           | x # xs \<Rightarrow> if in_cls c x then match_at (StarLazy c # p) xs else None))"
| "match_at (Opt body # p) s =
     (case match_at (body @ p) s of Some r \<Rightarrow> Some r | None \<Rightarrow> match_at p s)"
| "match_at (GOpen # p) s =
     map_option (\<lambda>(opened, shut, rest). (Some s, shut, rest)) (match_at p s)"
| "match_at (GClose # p) s =
     map_option (\<lambda>(opened, shut, rest). (opened, Some s, rest)) (match_at p s)"
| "match_at (Eos # p) s =
     (if s = [] \<or> s = [CHR 0x0A] then match_at p s else None)"
  by pat_completeness auto
termination
  by (relation "measures [\<lambda>(p, s). pweight p, \<lambda>(p, s). length s]") (auto simp: pweight_def)

text \<open>Pattern syntax: a literal text, \<open>c+\<close>, \<open>c+?\<close>, and a capturing group.\<close>

definition lit :: "string \<Rightarrow> item list" where
  "lit s = map (\<lambda>c. Chr (Lit c)) s"

definition many1 :: "cls \<Rightarrow> item list" where
  "many1 c = [Chr c, Star c]"

definition many1_lazy :: "cls \<Rightarrow> item list" where
  "many1_lazy c = [Chr c, StarLazy c]"

definition group :: "item list \<Rightarrow> item list" where
  "group body = GOpen # body @ [GClose]"

text \<open>\<open>match.group(1)\<close>: \<open>None\<close> when the group took no part in the match.\<close>

definition group1 :: "mres \<Rightarrow> string option" where
  "group1 r =
     (case r of
        (Some ro, Some rc, rest) \<Rightarrow> Some (take (length ro - length rc) ro)
      | _ \<Rightarrow> None)"

text \<open>
  \<open>pattern.search(s)\<close>: the match at the leftmost position that has one, with the text
  before it.
\<close>

fun search :: "item list \<Rightarrow> string \<Rightarrow> (string \<times> mres) option" where
  "search p [] = map_option (Pair []) (match_at p [])"
| "search p (x # xs) =
     (case match_at p (x # xs) of
        Some r \<Rightarrow> Some ([], r)
      | None \<Rightarrow> map_option (\<lambda>(pre, r). (x # pre, r)) (search p xs))"

text \<open>
  \<open>pattern.findall(s)\<close> for a pattern with one group: the group's text in each of the
  successive matches, the empty string for a group that took no part. Every pattern of
  the source consumes at least one character (lemma \<open>patterns_consume\<close> below), so
  the search always resumes on a shorter text; the model stops where it would not.
\<close>

function findall :: "item list \<Rightarrow> string \<Rightarrow> string list" where
  "findall p s =
     (case search p s of
        None \<Rightarrow> []
      | Some (pre, opened, shut, rest) \<Rightarrow>
          (case group1 (opened, shut, rest) of Some g \<Rightarrow> g | None \<Rightarrow> []) #
          (if length rest < length s then findall p rest else []))"
  by pat_completeness auto
termination
  by (relation "measure (\<lambda>(p, s). length s)") auto

text \<open>
  \<open>re.sub(pattern, repl, s)\<close>: every successive match is replaced by \<open>repl\<close> applied to
  the text of group 1 (the empty text for a group that took no part, as the template
  \<open>\1\<close> has it).
\<close>

function sub :: "item list \<Rightarrow> (string \<Rightarrow> string) \<Rightarrow> string \<Rightarrow> string" where
  "sub p repl s =
     (case search p s of
        None \<Rightarrow> s
      | Some (pre, opened, shut, rest) \<Rightarrow>
          pre @ repl (case group1 (opened, shut, rest) of Some g \<Rightarrow> g | None \<Rightarrow> []) @
          (if length rest < length s then sub p repl rest else rest))"
  by pat_completeness auto
termination
  by (relation "measure (\<lambda>(p, repl, s). length s)") auto

declare findall.simps [simp del] sub.simps [simp del]

text \<open>The least number of characters a match of the pattern consumes.\<close>

fun minlen :: "item list \<Rightarrow> nat" where
  "minlen [] = 0"
| "minlen (Chr c # p) = Suc (minlen p)"
| "minlen (i # p) = minlen p"

text \<open>What a caller reads from a search: \<open>match.group(1)\<close> as a value.\<close>

definition capture :: "(string \<times> mres) option \<Rightarrow> pyval" where
  "capture found =
     (case found of
        None \<Rightarrow> PStr []
      | Some (pre, match_object) \<Rightarrow>
          (case group1 match_object of Some g \<Rightarrow> PStr g | None \<Rightarrow> PNone))"


section \<open>Strings\<close>

text \<open>
  The characters below code point 256 that \<open>str.strip()\<close> takes for white space, and
  those that \<open>int()\<close> drops around a number (the four separators 28 to 31 are not
  among them).
\<close>

definition whitespace :: "char list" where
  "whitespace =
     [CHR 0x09, CHR 0x0A, CHR 0x0B, CHR 0x0C, CHR 0x0D, CHR 0x1C, CHR 0x1D, CHR 0x1E, CHR 0x1F,
      CHR 0x20, CHR 0x85, CHR 0xA0]"

definition int_space :: "char list" where
  "int_space = [CHR 0x09, CHR 0x0A, CHR 0x0B, CHR 0x0C, CHR 0x0D, CHR 0x20, CHR 0x85, CHR 0xA0]"

definition str_strip :: "string \<Rightarrow> string" where
  "str_strip s = strip_chars whitespace s"

text \<open>\<open>s.split(c)\<close> on a one-character separator, and \<open>sep.join(parts)\<close>.\<close>

fun split_on :: "char \<Rightarrow> string \<Rightarrow> string list" where
  "split_on c [] = [[]]"
| "split_on c (x # xs) =
     (if x = c then [] # split_on c xs
      else (case split_on c xs of [] \<Rightarrow> [[x]] | w # ws \<Rightarrow> (x # w) # ws))"

fun str_join :: "string \<Rightarrow> string list \<Rightarrow> string" where
  "str_join sep [] = []"
| "str_join sep [w] = w"
| "str_join sep (w # v # ws) = w @ sep @ str_join sep (v # ws)"

definition startswith :: "string \<Rightarrow> string \<Rightarrow> bool" where
  "startswith s t = (take (length t) s = t)"

definition endswith :: "string \<Rightarrow> string \<Rightarrow> bool" where
  "endswith s t = (length t \<le> length s \<and> drop (length s - length t) s = t)"

text \<open>
  \<open>int(s)\<close> on a string: white space around the number is dropped, a sign may lead,
  and single underscores may stand between digits. \<open>None\<close> is the \<open>ValueError\<close>.
  The bound that recent interpreters put on the number of digits is not modelled.
\<close>

definition is_digit :: "char \<Rightarrow> bool" where
  "is_digit c = (c \<in> set ''0123456789'')"

fun digit_groups :: "string \<Rightarrow> bool" where
  "digit_groups [] = False"
| "digit_groups [c] = is_digit c"
| "digit_groups (c # d # r) =
     (is_digit c \<and> (if d = CHR ''_'' then digit_groups r else digit_groups (d # r)))"

definition digits_value :: "string \<Rightarrow> int" where
  "digits_value ds = foldl (\<lambda>acc c. 10 * acc + (int (of_char c) - 48)) 0 ds"

definition py_int :: "string \<Rightarrow> int option" where
  "py_int s =
     (let t = strip_chars int_space s;
          negative = startswith t ''-'';
          body = (if startswith t ''-'' \<or> startswith t ''+'' then tl t else t)
      in if digit_groups body
         then Some ((if negative then - 1 else 1) * digits_value (filter is_digit body))
         else None)"


section \<open>Extraction (answer_extraction.py)\<close>

definition text_to_int_dict :: "(string \<times> int) list" where
  "text_to_int_dict =
     [(''zero'', 0), (''one'', 1), (''two'', 2), (''three'', 3), (''four'', 4),
      (''five'', 5), (''six'', 6), (''seven'', 7), (''eight'', 8), (''nine'', 9),
      (''ten'', 10), (''eleven'', 11), (''twelve'', 12), (''thirteen'', 13),
      (''fourteen'', 14), (''fifteen'', 15), (''sixteen'', 16), (''seventeen'', 17),
      (''eighteen'', 18), (''nineteen'', 19), (''twenty'', 20)]"

definition text_to_int :: "string \<Rightarrow> int option" where
  "text_to_int s = map_of text_to_int_dict s"

text \<open>
  \<open>_insert_quotes_in_tuples\<close>: the inner function \<open>replacer\<close> on the text between the
  parentheses, and the substitution with the pattern \<^verbatim>\<open>\(([^()]+)\)\<close>, whose group
  takes part in every match.
\<close>

definition quote_part :: "string \<Rightarrow> string" where
  "quote_part p =
     (if (startswith p [CHR 0x27] \<and> endswith p [CHR 0x27])
         \<or> (startswith p [CHR 0x22] \<and> endswith p [CHR 0x22])
      then p
      else [CHR 0x27] @ p @ [CHR 0x27])"

definition replacer :: "string \<Rightarrow> string" where
  "replacer content =
     ''('' @ str_join '', '' (map quote_part (map str_strip (split_on CHR '','' content))) @ '')''"

definition paren_group_re :: "item list" where
  "paren_group_re = lit ''('' @ group (many1 (NoneOf ''()'')) @ lit '')''"

definition insert_quotes_in_tuples :: "string \<Rightarrow> string" where
  "insert_quotes_in_tuples candidate = sub paren_group_re replacer candidate"

text \<open>The pattern \<^verbatim>\<open>```python\n(.*?)```\<close> under \<open>re.DOTALL\<close>.\<close>

definition code_block_re :: "item list" where
  "code_block_re =
     lit ''```python'' @ [Chr (Lit (CHR 0x0A))] @ group [StarLazy AnyChar] @ lit ''```''"

definition is_tuple :: "pyval \<Rightarrow> bool" where
  "is_tuple v = (case v of PTuple xs \<Rightarrow> True | _ \<Rightarrow> False)"

definition is_triple :: "pyval \<Rightarrow> bool" where
  "is_triple v = (case v of PTuple xs \<Rightarrow> length xs = 3 | _ \<Rightarrow> False)"

text \<open>
  \<open>extract_travel_eval\<close>. \<open>ast.literal_eval\<close> belongs to Python's library and is a
  parameter of the model: a function from the text to the value it denotes or to the
  exception it raises. The \<open>try\<close> spans the evaluation, the subscription
  \<open>travel_plan[0]\<close> and the format check, and catches \<open>SyntaxError\<close> only.
\<close>

definition extract_travel_eval :: "(string \<Rightarrow> pyerr + pyval) \<Rightarrow> string \<Rightarrow> pyerr + pyval" where
  "extract_travel_eval literal_eval response =
     (let matches = findall code_block_re response
      in if matches = [] then Inr (PList [])
         else
           (let travel_plan_str = insert_quotes_in_tuples (str_strip (last matches))
            in case
                 (case literal_eval travel_plan_str of
                    Inl e \<Rightarrow> Inl e
                  | Inr travel_plan \<Rightarrow>
                      (case py_getitem travel_plan 0 of
                         Inl e \<Rightarrow> Inl e
                       | Inr first \<Rightarrow>
                           (case (if is_tuple first then py_iter travel_plan
                                  else Inr [travel_plan]) of
                              Inl e \<Rightarrow> Inl e
                            | Inr plan \<Rightarrow>
                                if list_all is_triple plan then Inr (PList plan)
                                else Inr (PList []))))
               of
                 Inl e \<Rightarrow> (if e = SyntaxError then Inr (PList []) else Inl e)
               | Inr plan \<Rightarrow> Inr plan))"

text \<open>\<open>_remove_text_formatting\<close>: six substitutions, each keeping the digits of its match.\<close>

definition digits :: "item list" where
  "digits = group (many1 Digit)"

definition remove_text_formatting :: "string \<Rightarrow> string" where
  "remove_text_formatting response =
     (let r1 = sub (lit ''#'' @ digits) (\<lambda>g. g) response;
          r2 = sub (digits @ lit ''#'') (\<lambda>g. g) r1;
          r3 = sub (lit ''**'' @ digits) (\<lambda>g. g) r2;
          r4 = sub (digits @ lit ''**'') (\<lambda>g. g) r3;
          r5 = sub (lit [CHR 0x5C] @ digits) (\<lambda>g. g) r4;
          r6 = sub (digits @ lit [CHR 0x5C]) (\<lambda>g. g) r5
      in r6)"

text \<open>
  The patterns \<^verbatim>\<open>appear.*?(\d+).*?time\<close> and
  \<^verbatim>\<open>.*appear \**\\?\[(.+)?\\?\]\** time\<close> of \<open>extract_count_eval\<close>.
\<close>

definition count_re :: "item list" where
  "count_re = lit ''appear'' @ [StarLazy Dot] @ digits @ [StarLazy Dot] @ lit ''time''"

definition count_multi_re :: "item list" where
  "count_multi_re =
     [Star Dot] @ lit ''appear '' @ [Star (Lit CHR ''*''), Opt (lit [CHR 0x5C])] @ lit ''[''
       @ [Opt (group (many1 Dot)), Opt (lit [CHR 0x5C])] @ lit '']''
       @ [Star (Lit CHR ''*'')] @ lit '' time''"

text \<open>\<open>try: int(s)  except ValueError: _text_to_int(s)\<close>, on the text without its markup.\<close>

definition to_count :: "string \<Rightarrow> pyval" where
  "to_count s =
     (case py_int s of
        Some n \<Rightarrow> PInt n
      | None \<Rightarrow> (case text_to_int s of Some n \<Rightarrow> PInt n | None \<Rightarrow> PNone))"

text \<open>
  \<open>extract_count_eval\<close>. The variable \<open>ans\<close> is local to the function and receives
  its first value in the branch \<open>k == 1\<close> or in the loop over the captured list; the
  \<open>return [ans] * k\<close> of the other branch reads it before any assignment. A group that
  took no part in the match is \<open>None\<close>, which has no \<open>split\<close>.
\<close>

definition extract_count_eval :: "string \<Rightarrow> int \<Rightarrow> pyerr + pyval" where
  "extract_count_eval response k' =
     (if k' = 1 then
        (case search count_re response of
           None \<Rightarrow> Inr (PList [PStr []])
         | Some (pre, match_obj) \<Rightarrow>
             (case group1 match_obj of
                None \<Rightarrow> Inl TypeError
              | Some s \<Rightarrow> Inr (PList [to_count (remove_text_formatting s)])))
      else
        (case search count_multi_re response of
           None \<Rightarrow> Inl UnboundLocalError
         | Some (pre, match_obj) \<Rightarrow>
             (case group1 match_obj of
                None \<Rightarrow> Inl AttributeError
              | Some g \<Rightarrow>
                  (let answers = map (\<lambda>ans. to_count (remove_text_formatting ans))
                                     (split_on CHR '','' g)
                   in if int (length answers) \<noteq> k' then Inr (PList [PStr []])
                      else Inr (PList answers)))))"

text \<open>\<open>extract_mathgap_eval\<close>, with the pattern \<^verbatim>\<open>boxed{([^}]*)}\<close>.\<close>

definition mathgap_re :: "item list" where
  "mathgap_re = lit ''boxed{'' @ group [Star (NoneOf ''}'')] @ lit ''}''"

definition extract_mathgap_eval :: "string \<Rightarrow> pyval" where
  "extract_mathgap_eval response =
     (let matches = findall mathgap_re response
      in if matches = [] then PNone
         else (case py_int (last matches) of Some n \<Rightarrow> PInt n | None \<Rightarrow> PNone))"

text \<open>
  The patterns of \<open>extract_logic_eval\<close>. The name \<open>extract_answer_sentence2\<close> is bound
  twice in the source; the list \<open>compiled_res\<close> is built after the second binding,
  \<^verbatim>\<open>answer.*?([A-D])\<close>.
\<close>

definition letter :: "item list" where
  "letter = group [Chr (OneOf ''ABCD'')]"

definition extract_answer_html :: "item list" where
  "extract_answer_html = [Star Dot] @ lit ''<answer>'' @ letter @ lit ''</answer>''"

definition extract_answer_boxed :: "item list" where
  "extract_answer_boxed = lit ''boxed{'' @ letter @ lit ''}''"

definition extract_answer_sentence :: "item list" where
  "extract_answer_sentence = lit ''answer'' @ [Opt (lit '':'')] @ lit '' '' @ letter"

definition extract_answer_sentence2 :: "item list" where
  "extract_answer_sentence2 = lit ''answer'' @ [StarLazy Dot] @ letter"

definition compiled_res :: "item list list" where
  "compiled_res =
     [extract_answer_html, extract_answer_boxed, extract_answer_sentence,
      extract_answer_sentence2]"

fun logic_loop :: "item list list \<Rightarrow> string \<Rightarrow> pyval" where
  "logic_loop [] response = PStr []"
| "logic_loop (re # rest) response =
     (case search re response of
        Some (pre, match_object) \<Rightarrow>
          (case group1 match_object of Some g \<Rightarrow> PStr g | None \<Rightarrow> PNone)
      | None \<Rightarrow> logic_loop rest response)"

definition extract_logic_eval :: "string \<Rightarrow> pyval" where
  "extract_logic_eval response = logic_loop compiled_res response"

text \<open>The patterns of \<open>extract_unpuzzle_eval\<close>, in the order of the list \<open>find_answers\<close>.\<close>

definition find_answers :: "item list list" where
  "find_answers =
     [lit ''boxed{'' @ group (many1_lazy Dot) @ lit ''}'',
      lit ''Answer'' @ [Star Dot] @ lit ''**'' @ group (many1 Dot) @ lit ''**'',
      lit ''**Answer'' @ [Opt (lit '':'')] @ lit '' '' @ group (many1 Dot) @ lit ''**'',
      lit ''answer is'' @ [Opt (lit '':'')] @ lit '' '' @ group (many1 Dot) @ [Chr Dot],
      lit ''**answer is'' @ [Opt (lit '':'')] @ lit '' '' @ group (many1 Dot) @ lit ''**'',
      lit ''Answer: '' @ group (many1 Dot) @ [Chr Dot],
      lit ''/'' @ [Eos] @ group (many1_lazy Dot) @ lit ''/'' @ [Eos]]"

text \<open>
  The inner loop returns the first capture that is no placeholder; when it finds none,
  it ends and the outer loop goes on with the next pattern.
\<close>

fun first_answer :: "string list \<Rightarrow> string option" where
  "first_answer [] = None"
| "first_answer (s # rest) =
     (if s \<notin> set [''your answer'', ''answer''] then Some s else first_answer rest)"

fun unpuzzle_loop :: "item list list \<Rightarrow> string \<Rightarrow> string" where
  "unpuzzle_loop [] response = []"
| "unpuzzle_loop (regex # rest) response =
     (let matches = findall regex response
      in if matches \<noteq> []
         then (case first_answer matches of
                 Some s \<Rightarrow> s
               | None \<Rightarrow> unpuzzle_loop rest response)
         else unpuzzle_loop rest response)"

definition extract_unpuzzle_eval :: "string \<Rightarrow> string" where
  "extract_unpuzzle_eval response = unpuzzle_loop find_answers response"

text \<open>\<open>extract_eval\<close>: \<open>json_entry["k"]\<close> raises when the descriptor has no \<open>k\<close>.\<close>

definition extract_eval ::
  "(string \<Rightarrow> pyerr + pyval) \<Rightarrow> json_entry \<Rightarrow> string \<Rightarrow> pyerr + pyval" where
  "extract_eval literal_eval entry response =
     (if task entry \<in> set [''character_count'', ''word_count''] then
        (case k entry of
           None \<Rightarrow> Inl KeyError
         | Some k' \<Rightarrow> extract_count_eval response k')
      else if task entry \<in> set [''mathgap_diverse'', ''mathgap_irrelevant''] then
        Inr (extract_mathgap_eval response)
      else if task entry = ''travel'' then extract_travel_eval literal_eval response
      else if task entry \<in> set [''logic_negation'', ''logic_evaluation''] then
        Inr (extract_logic_eval response)
      else Inr (PStr []))"


section \<open>The travel validator in the words of the specification\<close>

text \<open>
  An itinerary of the data model is a list of triples of strings (origin, destination,
  mode); \<open>triple\<close> is the Python tuple of such a step. The running current city before
  each step is the start city followed by the destinations of the earlier steps; the
  visited cities are all origins and destinations.
\<close>

definition triple :: "string \<times> string \<times> string \<Rightarrow> pyval" where
  "triple t = (case t of (a, b, m) \<Rightarrow> PTuple [PStr a, PStr b, PStr m])"

definition origin :: "string \<times> string \<times> string \<Rightarrow> string" where
  "origin t = fst t"

definition destination :: "string \<times> string \<times> string \<Rightarrow> string" where
  "destination t = fst (snd t)"

definition in_graph ::
  "(string \<rightharpoonup> (string \<rightharpoonup> string list)) \<Rightarrow> string \<times> string \<times> string \<Rightarrow> bool" where
  "in_graph g t =
     (case t of (a, b, m) \<Rightarrow>
        (case g a of
           None \<Rightarrow> False
         | Some nbrs \<Rightarrow> (case nbrs b of None \<Rightarrow> False | Some modes \<Rightarrow> m \<in> set modes)))"

definition current_cities :: "string \<Rightarrow> (string \<times> string \<times> string) list \<Rightarrow> string list" where
  "current_cities start trip = butlast (start # map destination trip)"

definition visited :: "(string \<times> string \<times> string) list \<Rightarrow> string set" where
  "visited trip = set (map origin trip) \<union> set (map destination trip)"

definition connectivity_spec ::
  "string \<Rightarrow> int \<Rightarrow> (string \<rightharpoonup> (string \<rightharpoonup> string list)) \<Rightarrow> (string \<times> string \<times> string) list
     \<Rightarrow> bool" where
  "connectivity_spec start n g trip =
     (map origin trip = current_cities start trip
      \<and> list_all (in_graph g) trip
      \<and> n \<le> int (card (visited trip)))"

text \<open>
  The budget rule: the key of every step is in the cost table, and the running total,
  the costs found under the keys added one after the other to zero in float
  arithmetic, is not greater than the budget. \<open>exact_sums\<close> says that no addition of
  the running total rounds: every partial sum of the list is a binary64 number.
\<close>

definition cost_key :: "string \<times> string \<times> string \<Rightarrow> string" where
  "cost_key t = (case t of (a, b, m) \<Rightarrow> a @ b @ m)"

definition step_costs ::
  "(string \<rightharpoonup> pyfloat) \<Rightarrow> (string \<times> string \<times> string) list \<Rightarrow> pyfloat list" where
  "step_costs cs trip = map (\<lambda>t. the (cs (cost_key t))) trip"

definition running_total :: "pyfloat list \<Rightarrow> pyfloat" where
  "running_total cs = foldl fadd (Fin 0) cs"

definition budget_spec ::
  "(string \<rightharpoonup> pyfloat) \<Rightarrow> pyfloat \<Rightarrow> (string \<times> string \<times> string) list \<Rightarrow> bool" where
  "budget_spec cs budget trip =
     (list_all (\<lambda>t. cost_key t \<in> dom cs) trip
      \<and> \<not> fgt (running_total (step_costs cs trip)) budget)"

definition exact_sums :: "rat list \<Rightarrow> bool" where
  "exact_sums xs =
     list_all (\<lambda>n. to_double (sum_list (take n xs)) = Fin (sum_list (take n xs)))
       [0 ..< Suc (length xs)]"

fun is_string_triple :: "pyval \<Rightarrow> bool" where
  "is_string_triple (PTuple [PStr a, PStr b, PStr m]) = True"
| "is_string_triple v = False"

text \<open>The marker \<open>boxed{X}\<close> of the logic tasks.\<close>

definition boxed_marker :: "char \<Rightarrow> string" where
  "boxed_marker X = ''boxed{'' @ [X] @ ''}''"

definition task_tags :: "string list" where
  "task_tags =
     [''character_count'', ''word_count'', ''mathgap_diverse'', ''mathgap_irrelevant'',
      ''travel'', ''logic_negation'', ''logic_evaluation'']"

text \<open>A small travel task, used to instantiate the theorems below.\<close>

definition example_graph :: "string \<rightharpoonup> (string \<rightharpoonup> string list)" where
  "example_graph =
     [''Fresno'' \<mapsto> [''Irvine'' \<mapsto> [''motorhome'']], ''Reno'' \<mapsto> [''Irvine'' \<mapsto> [''bus'']]]"

definition example_costs :: "string \<rightharpoonup> pyfloat" where
  "example_costs = [''FresnoIrvinemotorhome'' \<mapsto> Fin 10, ''RenoIrvinebus'' \<mapsto> Fin 3]"

definition example_constraint :: travel_constraint where
  "example_constraint =
     \<lparr>city_start = ''Fresno'', city_end = ''Irvine'', steps = 2, total_budget = Fin 10,
      graph = example_graph, costs = example_costs\<rparr>"

definition example_detour :: "(string \<times> string \<times> string) list" where
  "example_detour = [(''Fresno'', ''Irvine'', ''motorhome''), (''Reno'', ''Irvine'', ''bus'')]"


section \<open>Connectivity\<close>

lemma origin_triple [simp]: "origin (a, b, m) = a"
  by (simp add: origin_def)

lemma destination_triple [simp]: "destination (a, b, m) = b"
  by (simp add: destination_def)

lemma edge_missing_triple:
  "edge_missing g (PStr a) (PStr b) (PStr m) = Inr (\<not> in_graph g (a, b, m))"
  by (auto simp: edge_missing_def dict_get_def in_graph_def split: option.splits)

lemma current_cities_Cons:
  "x # xs = current_cities cur (t # rest)
     \<longleftrightarrow> x = cur \<and> xs = current_cities (destination t) rest"
  by (simp add: current_cities_def)

lemma connectivity_loop_step:
  "connectivity_loop g n (triple (a, b, m) # sol) V (PStr cur) =
     (if in_graph g (a, b, m) \<and> a = cur
      then connectivity_loop g n sol (insert (PStr b) (insert (PStr a) V)) (PStr b)
      else Inr False)"
  by (auto simp: triple_def unpack3_def edge_missing_triple)

text \<open>The loop invariant, for any set of cities visited so far and any current city.\<close>

lemma connectivity_loop_triples:
  "connectivity_loop g n (map triple trip) V (PStr cur) =
     Inr (map origin trip = current_cities cur trip
          \<and> list_all (in_graph g) trip
          \<and> n \<le> int (card (V \<union> PStr ` visited trip)))"
proof (induction trip arbitrary: V cur)
  case Nil
  show ?case by (simp add: current_cities_def visited_def)
next
  case (Cons t rest)
  obtain a b m where t: "t = (a, b, m)" by (cases t)
  have sets: "insert (PStr b) (insert (PStr a) V) \<union> PStr ` visited rest
                = V \<union> PStr ` visited (t # rest)"
    by (auto simp: visited_def t)
  have IH': "connectivity_loop g n (map triple rest) (insert (PStr b) (insert (PStr a) V)) (PStr b) =
          Inr (map origin rest = current_cities b rest
               \<and> list_all (in_graph g) rest
               \<and> n \<le> int (card (V \<union> PStr ` visited (t # rest))))"
    using Cons.IH [of "insert (PStr b) (insert (PStr a) V)" b] unfolding sets .
  have step: "connectivity_loop g n (map triple (t # rest)) V (PStr cur) =
          (if in_graph g t \<and> a = cur
           then connectivity_loop g n (map triple rest) (insert (PStr b) (insert (PStr a) V)) (PStr b)
           else Inr False)"
    by (simp only: list.map t connectivity_loop_step)
  show ?case
    unfolding step IH'
    by (auto simp: current_cities_Cons t)
qed

lemma card_PStr_image: "card (PStr ` A) = card A"
  by (rule card_image) (simp add: inj_on_def)

lemma validate_connectivity_triples:
  "validate_connectivity start n g (PList (map triple trip)) =
     Inr (connectivity_spec start n g trip)"
  by (simp add: validate_connectivity_def connectivity_loop_triples connectivity_spec_def
        card_PStr_image)


section \<open>Budget\<close>

lemma cost_lookup_triple:
  "cost_lookup cs (PStr a) (PStr b) (PStr m) = Inr (cs (cost_key (a, b, m)))"
  by (simp add: cost_lookup_def dict_get_def cost_key_def)

lemma budget_loop_step:
  "budget_loop cs budget (triple (a, b, m) # sol) tot =
     (case cs (cost_key (a, b, m)) of
        None \<Rightarrow> Inr False
      | Some c \<Rightarrow> budget_loop cs budget sol (fadd tot c))"
  by (simp add: triple_def unpack3_def cost_lookup_triple)

text \<open>The loop invariant, for any total so far.\<close>

lemma budget_loop_triples:
  "budget_loop cs budget (map triple trip) tot =
     Inr (list_all (\<lambda>t. cost_key t \<in> dom cs) trip
          \<and> \<not> fgt (foldl fadd tot (step_costs cs trip)) budget)"
proof (induction trip arbitrary: tot)
  case Nil
  show ?case by (auto simp: step_costs_def)
next
  case (Cons t rest)
  obtain a b m where t: "t = (a, b, m)" by (cases t)
  show ?case
  proof (cases "cs (cost_key t)")
    case None
    then show ?thesis
      by (simp add: t budget_loop_step dom_def del: budget_loop.simps)
  next
    case (Some c)
    then show ?thesis
      using Cons.IH [of "fadd tot c"]
      by (simp add: t budget_loop_step dom_def step_costs_def del: budget_loop.simps)
  qed
qed

lemma validate_budget_triples:
  "validate_budget cs budget (PList (map triple trip)) = Inr (budget_spec cs budget trip)"
  by (simp add: validate_budget_def budget_loop_triples budget_spec_def running_total_def)

text \<open>Where no addition rounds, the running total is the sum.\<close>

lemma exact_sums_butlast: "exact_sums (xs @ [x]) \<Longrightarrow> exact_sums xs"
  by (simp add: exact_sums_def list_all_iff)

lemma exact_sums_whole: "exact_sums xs \<Longrightarrow> to_double (sum_list xs) = Fin (sum_list xs)"
  by (simp add: exact_sums_def list_all_iff)

lemma running_total_exact:
  "exact_sums xs \<Longrightarrow> running_total (map Fin xs) = Fin (sum_list xs)"
proof (induction xs rule: rev_induct)
  case Nil
  show ?case by (simp add: running_total_def)
next
  case (snoc x xs)
  from snoc.prems have "exact_sums xs" by (rule exact_sums_butlast)
  then have "running_total (map Fin xs) = Fin (sum_list xs)" by (rule snoc.IH)
  then have "running_total (map Fin (xs @ [x])) = to_double (sum_list xs + x)"
    by (simp add: running_total_def)
  also have "\<dots> = Fin (sum_list (xs @ [x]))"
    using exact_sums_whole [OF snoc.prems] by simp
  finally show ?case .
qed

text \<open>The lookup raises nothing but a type error, and finds no cost unless all three
  components are strings.\<close>

lemma cost_lookup_error:
  "cost_lookup cs a b m = Inl e \<Longrightarrow> e = TypeError"
  by (cases a; cases b; cases m)
     (simp_all add: cost_lookup_def dict_get_def split: if_splits)

lemma cost_lookup_not_strings:
  "\<not> is_string_triple (PTuple [a, b, m]) \<Longrightarrow> cost_lookup cs a b m \<noteq> Inr (Some c)"
  by (cases a; cases b; cases m)
     (simp_all add: cost_lookup_def dict_get_def split: if_splits)

lemma is_triple_cases:
  "is_triple st \<Longrightarrow> \<exists>a b m. st = PTuple [a, b, m]"
  by (cases st) (auto simp: is_triple_def length_Suc_conv numeral_3_eq_3)

lemma budget_loop_3tuple_step:
  "budget_loop cs budget (PTuple [a, b, m] # sol) tot =
     (case cost_lookup cs a b m of
        Inl e \<Rightarrow> Inr False
      | Inr None \<Rightarrow> Inr False
      | Inr (Some c) \<Rightarrow> budget_loop cs budget sol (fadd tot c))"
  by (auto simp: unpack3_def split: sum.splits option.splits dest: cost_lookup_error)

lemma budget_loop_bad_step:
  "list_all is_triple sol \<Longrightarrow> \<not> list_all is_string_triple sol
     \<Longrightarrow> budget_loop cs budget sol tot = Inr False"
proof (induction sol arbitrary: tot)
  case Nil
  then show ?case by simp
next
  case (Cons st rest)
  from Cons.prems(1) have "is_triple st" by simp
  then obtain a b m where st: "st = PTuple [a, b, m]"
    using is_triple_cases by blast
  show ?case
  proof (cases "is_string_triple st")
    case True
    with Cons.prems have "list_all is_triple rest" "\<not> list_all is_string_triple rest"
      by simp_all
    then have "budget_loop cs budget rest t = Inr False" for t
      by (rule Cons.IH)
    then show ?thesis
      by (simp add: st budget_loop_3tuple_step split: sum.splits option.splits
            del: budget_loop.simps)
  next
    case False
    then show ?thesis
      using cost_lookup_not_strings [of a b m cs]
      by (simp add: st budget_loop_3tuple_step split: sum.splits option.splits
            del: budget_loop.simps)
  qed
qed


section \<open>The travel scorer\<close>

lemma py_getitem_last:
  "xs \<noteq> [] \<Longrightarrow> py_getitem (PList xs) (- 1) = Inr (last xs)"
  by (cases xs rule: rev_cases) (auto simp: py_getitem_def nth_append)

lemma py_getitem_triple_1:
  "py_getitem (triple t) 1 = Inr (PStr (destination t))"
  by (cases t) (simp add: triple_def py_getitem_def)

text \<open>Among the lists of 3-tuples, only those of string triples pass the connectivity check.\<close>

lemma edge_present_strings:
  "edge_missing g a b m = Inr False \<Longrightarrow> is_string_triple (PTuple [a, b, m])"
  by (cases a; cases b; cases m)
     (auto simp: edge_missing_def dict_get_def split: if_splits option.splits)

lemma is_string_triple_iff:
  "is_string_triple v \<longleftrightarrow> (\<exists>a b m. v = PTuple [PStr a, PStr b, PStr m])"
  by (cases v rule: is_string_triple.cases) simp_all

lemma string_triple_is_triple:
  "is_string_triple st \<Longrightarrow> \<exists>t. st = triple t"
proof -
  assume "is_string_triple st"
  then obtain a b m where "st = PTuple [PStr a, PStr b, PStr m]"
    unfolding is_string_triple_iff by blast
  then have "st = triple (a, b, m)" by (simp add: triple_def)
  then show ?thesis by blast
qed

lemma string_triples_are_triples:
  "list_all is_string_triple sol \<Longrightarrow> \<exists>trip. sol = map triple trip"
proof (induction sol)
  case Nil
  then show ?case by simp
next
  case (Cons st rest)
  from Cons.prems have "is_string_triple st" and "list_all is_string_triple rest" by simp_all
  then obtain t trip where "st = triple t" and "rest = map triple trip"
    using string_triple_is_triple Cons.IH by blast
  then have "st # rest = map triple (t # trip)" by simp
  then show ?case by (rule exI)
qed

lemma connectivity_loop_accepts_strings:
  "list_all is_triple sol \<Longrightarrow> connectivity_loop g n sol V cur = Inr True
     \<Longrightarrow> list_all is_string_triple sol"
proof (induction sol arbitrary: V cur)
  case Nil
  then show ?case by simp
next
  case (Cons st rest)
  from Cons.prems(1) have "is_triple st" and rest: "list_all is_triple rest" by simp_all
  then obtain a b m where st: "st = PTuple [a, b, m]"
    using is_triple_cases by blast
  from Cons.prems(2) have present: "edge_missing g a b m = Inr False"
    and next_ok: "connectivity_loop g n rest (insert b (insert a V)) b = Inr True"
    by (auto simp: st unpack3_def split: sum.splits if_splits)
  from present have "is_string_triple st" unfolding st by (rule edge_present_strings)
  moreover from rest next_ok have "list_all is_string_triple rest" by (rule Cons.IH)
  ultimately show ?case by simp
qed

lemma validate_connectivity_3tuples:
  assumes "list_all is_triple sol"
  shows "validate_connectivity start n g (PList sol) = Inr True
         \<longleftrightarrow> (\<exists>trip. sol = map triple trip \<and> connectivity_spec start n g trip)"
proof
  assume acc: "validate_connectivity start n g (PList sol) = Inr True"
  then have "connectivity_loop g n sol {} (PStr start) = Inr True"
    by (simp add: validate_connectivity_def)
  with assms have "list_all is_string_triple sol" by (rule connectivity_loop_accepts_strings)
  then obtain trip where trip: "sol = map triple trip"
    using string_triples_are_triples by blast
  with acc have "connectivity_spec start n g trip"
    by (simp add: validate_connectivity_triples)
  with trip show "\<exists>trip. sol = map triple trip \<and> connectivity_spec start n g trip" by blast
next
  assume "\<exists>trip. sol = map triple trip \<and> connectivity_spec start n g trip"
  then show "validate_connectivity start n g (PList sol) = Inr True"
    by (auto simp: validate_connectivity_triples)
qed

text \<open>A last step with fewer than two fields makes the scorer raise.\<close>

lemma short_last_step:
  assumes "xs \<noteq> []" and "last xs = PTuple t" and "length t < 2"
  shows "score_travel_eval c (PList xs) = Inl IndexError"
proof -
  from assms(1) have "py_getitem (PList xs) (- 1) = Inr (last xs)" by (rule py_getitem_last)
  moreover from assms(3) have "py_getitem (PTuple t) 1 = Inl IndexError"
    by (simp add: py_getitem_def)
  ultimately show ?thesis using assms(1,2) by (simp add: score_travel_eval_def)
qed

text \<open>On an itinerary of string triples the scorer is the conjunction of its three rules.\<close>

lemma score_travel_eval_triples:
  "score_travel_eval c (PList (map triple trip)) =
     Inr (trip \<noteq> [] \<and> destination (last trip) = city_end c
          \<and> connectivity_spec (city_start c) (steps c) (graph c) trip
          \<and> budget_spec (costs c) (total_budget c) trip)"
proof (cases "trip = []")
  case True
  then show ?thesis by (simp add: score_travel_eval_def)
next
  case False
  then have "py_getitem (PList (map triple trip)) (- 1) = Inr (triple (last trip))"
    by (simp add: py_getitem_last last_map)
  then show ?thesis
    using False
    by (simp add: score_travel_eval_def py_getitem_triple_1 validate_connectivity_triples
          validate_budget_triples)
qed

text \<open>
  Claim C1. For every start city, minimum number of cities, graph and itinerary of
  string triples, the connectivity check returns true exactly when the origins of the
  steps are the running current cities (the start city, then the destination of each
  earlier step), every step is an edge of the graph with its mode permitted, and the
  number of distinct origins and destinations is at least the minimum. Among all lists
  of 3-tuples the check accepts exactly the itineraries of string triples that satisfy
  these conditions. An itinerary that fails them is scored false by the travel scorer,
  whatever its steps are one by one.
\<close>

theorem connectivity_accepts_iff_walk:
  "validate_connectivity start n g (PList (map triple trip)) =
     Inr (connectivity_spec start n g trip)
   \<and> (list_all is_triple sol
        \<longrightarrow> (validate_connectivity start n g (PList sol) = Inr True
             \<longleftrightarrow> (\<exists>trip'. sol = map triple trip' \<and> connectivity_spec start n g trip')))
   \<and> (\<not> connectivity_spec (city_start c) (steps c) (graph c) trip
        \<longrightarrow> score_travel_eval c (PList (map triple trip)) = Inr False)"
  by (simp add: validate_connectivity_triples score_travel_eval_triples
        validate_connectivity_3tuples)

theorem connectivity_accepts_iff_walk_witness:
  "list_all (in_graph example_graph) example_detour
   \<and> destination (last example_detour) = city_end example_constraint
   \<and> validate_connectivity ''Fresno'' 2 example_graph (PList (map triple example_detour)) =
       Inr False
   \<and> score_travel_eval example_constraint (PList (map triple example_detour)) = Inr False
   \<and> (\<exists>trip. [PTuple [PStr ''Fresno'', PStr ''Irvine'', PStr ''motorhome'']] = map triple trip
          \<and> connectivity_spec ''Fresno'' 2 example_graph trip)"
proof -
  note walk = connectivity_accepts_iff_walk
                [of "''Fresno''" 2 example_graph example_detour
                    "[PTuple [PStr ''Fresno'', PStr ''Irvine'', PStr ''motorhome'']]"
                    example_constraint]
  have broken: "\<not> connectivity_spec ''Fresno'' 2 example_graph example_detour"
    by (simp add: connectivity_spec_def current_cities_def example_detour_def)
  have edges: "list_all (in_graph example_graph) example_detour"
    by (simp add: in_graph_def example_graph_def example_detour_def)
  have ends: "destination (last example_detour) = city_end example_constraint"
    by (simp add: example_detour_def example_constraint_def)
  have shape: "list_all is_triple [PTuple [PStr ''Fresno'', PStr ''Irvine'', PStr ''motorhome'']]"
    by (simp add: is_triple_def)
  have accepted: "validate_connectivity ''Fresno'' 2 example_graph
      (PList [PTuple [PStr ''Fresno'', PStr ''Irvine'', PStr ''motorhome'']]) = Inr True"
    by (simp add: validate_connectivity_def unpack3_def edge_missing_def dict_get_def
          example_graph_def)
  from walk shape accepted
  have "\<exists>trip. [PTuple [PStr ''Fresno'', PStr ''Irvine'', PStr ''motorhome'']] = map triple trip
          \<and> connectivity_spec ''Fresno'' 2 example_graph trip"
    by blast
  moreover from walk broken
  have "validate_connectivity ''Fresno'' 2 example_graph (PList (map triple example_detour)) =
       Inr False"
    by simp
  moreover from walk broken
  have "score_travel_eval example_constraint (PList (map triple example_detour)) = Inr False"
    by (simp add: example_constraint_def)
  ultimately show ?thesis using edges ends by blast
qed

text \<open>Rounding at the values of the examples below.\<close>

lemma to_double_0: "to_double 0 = Fin 0"
  by (simp add: to_double_def)

lemma bits_10: "bits 10 = 4"
  by (simp add: bits.simps)

lemma ilog2_10: "ilog2 10 = 3"
  by (simp add: ilog2_def bits_10)

lemma to_double_10: "to_double 10 = Fin 10"
  by (simp add: to_double_def Let_def ilog2_10 pow2_def round_even_def)

lemma bits_big: "bits 10000000000000000 = 54"
  by (simp add: bits.simps)

lemma bits_big_1: "bits 10000000000000001 = 54"
  by (simp add: bits.simps)

lemma ilog2_big: "ilog2 10000000000000000 = 53"
  by (simp add: ilog2_def bits_big)

lemma ilog2_big_1: "ilog2 10000000000000001 = 53"
  by (simp add: ilog2_def bits_big_1)

lemma floor_half_big: "\<lfloor>(10000000000000001 :: rat) / 2\<rfloor> = 5000000000000000"
  by (rule floor_unique) simp_all

lemma to_double_big: "to_double 10000000000000000 = Fin 10000000000000000"
  by (simp add: to_double_def Let_def ilog2_big pow2_def round_even_def)

text \<open>A tie: 1e16 + 1 lies halfway between 1e16 and 1e16 + 2, and 1e16 has the even significand.\<close>

lemma to_double_big_1: "to_double 10000000000000001 = Fin 10000000000000000"
  by (simp add: to_double_def Let_def ilog2_big_1 pow2_def round_even_def floor_half_big)

text \<open>
  Claim C2, as amended. On an itinerary of string triples the budget check returns
  true exactly when the key origin+destination+mode of every step is in the cost table
  and the running total, the costs found added one after the other in float
  arithmetic, is not greater than the budget; a missing key gives false. On an
  itinerary of 3-tuples some of whose components are not strings the check returns
  false: the type error of the lookup does not propagate. Where the costs and the
  budget are finite and no addition rounds, the check returns true exactly when all
  keys are present and the sum of the costs is at most the budget.
\<close>

theorem budget_accepts_iff_within:
  "validate_budget cs budget (PList (map triple trip)) = Inr (budget_spec cs budget trip)
   \<and> (list_all is_triple sol \<and> \<not> list_all is_string_triple sol
        \<longrightarrow> validate_budget cs budget (PList sol) = Inr False)
   \<and> (list_all (\<lambda>t. cost_key t \<in> dom cs) trip \<and> step_costs cs trip = map Fin xs
        \<and> exact_sums xs
        \<longrightarrow> validate_budget cs (Fin b) (PList (map triple trip)) = Inr (sum_list xs \<le> b))"
proof (intro conjI impI)
  show "validate_budget cs budget (PList (map triple trip)) = Inr (budget_spec cs budget trip)"
    by (rule validate_budget_triples)
next
  assume "list_all is_triple sol \<and> \<not> list_all is_string_triple sol"
  then show "validate_budget cs budget (PList sol) = Inr False"
    by (simp add: validate_budget_def budget_loop_bad_step)
next
  assume a: "list_all (\<lambda>t. cost_key t \<in> dom cs) trip \<and> step_costs cs trip = map Fin xs
        \<and> exact_sums xs"
  then have "running_total (step_costs cs trip) = Fin (sum_list xs)"
    by (simp add: running_total_exact)
  with a show "validate_budget cs (Fin b) (PList (map triple trip)) = Inr (sum_list xs \<le> b)"
    by (simp add: validate_budget_triples budget_spec_def not_less)
qed

theorem budget_accepts_iff_within_witness:
  "validate_budget example_costs (Fin 10)
       (PList (map triple [(''Fresno'', ''Irvine'', ''motorhome'')])) = Inr True
   \<and> validate_budget example_costs (Fin 9)
       (PList (map triple [(''Fresno'', ''Irvine'', ''motorhome'')])) = Inr False
   \<and> validate_budget example_costs (Fin 10)
       (PList (map triple [(''Fresno'', ''Irvine'', ''car'')])) = Inr False
   \<and> validate_budget example_costs (Fin 10)
       (PList [PTuple [PStr ''Fresno'', PInt 1, PStr ''car'']]) = Inr False"
proof -
  have shape: "list_all is_triple [PTuple [PStr ''Fresno'', PInt 1, PStr ''car'']]
        \<and> \<not> list_all is_string_triple [PTuple [PStr ''Fresno'', PInt 1, PStr ''car'']]"
    by (simp add: is_triple_def)
  have exact: "list_all (\<lambda>t. cost_key t \<in> dom example_costs)
                 [(''Fresno'', ''Irvine'', ''motorhome'')]
        \<and> step_costs example_costs [(''Fresno'', ''Irvine'', ''motorhome'')] = map Fin [10]
        \<and> exact_sums [10]"
    by (simp add: cost_key_def example_costs_def step_costs_def exact_sums_def to_double_10
          to_double_0)
  have missing: "\<not> budget_spec example_costs (Fin 10) [(''Fresno'', ''Irvine'', ''car'')]"
    by (simp add: budget_spec_def cost_key_def example_costs_def dom_def)
  have accept: "validate_budget example_costs (Fin 10)
       (PList (map triple [(''Fresno'', ''Irvine'', ''motorhome'')])) = Inr (sum_list [10 :: rat] \<le> 10)"
    by (rule budget_accepts_iff_within
               [of example_costs "Fin 10" "[(''Fresno'', ''Irvine'', ''motorhome'')]" "[]" "[10]" 10,
                THEN conjunct2, THEN conjunct2, THEN mp, OF exact])
  have over: "validate_budget example_costs (Fin 9)
       (PList (map triple [(''Fresno'', ''Irvine'', ''motorhome'')])) = Inr (sum_list [10 :: rat] \<le> 9)"
    by (rule budget_accepts_iff_within
               [of example_costs "Fin 10" "[(''Fresno'', ''Irvine'', ''motorhome'')]" "[]" "[10]" 9,
                THEN conjunct2, THEN conjunct2, THEN mp, OF exact])
  have bad: "validate_budget example_costs (Fin 10)
       (PList [PTuple [PStr ''Fresno'', PInt 1, PStr ''car'']]) = Inr False"
    by (rule budget_accepts_iff_within
               [of example_costs "Fin 10" "[]" "[PTuple [PStr ''Fresno'', PInt 1, PStr ''car'']]"
                   "[]" 0,
                THEN conjunct2, THEN conjunct1, THEN mp, OF shape])
  have "validate_budget example_costs (Fin 10)
       (PList (map triple [(''Fresno'', ''Irvine'', ''car'')])) =
       Inr (budget_spec example_costs (Fin 10) [(''Fresno'', ''Irvine'', ''car'')])"
    by (rule budget_accepts_iff_within
               [of example_costs "Fin 10" "[(''Fresno'', ''Irvine'', ''car'')]" "[]" "[]" 0,
                THEN conjunct1])
  with missing have absent: "validate_budget example_costs (Fin 10)
       (PList (map triple [(''Fresno'', ''Irvine'', ''car'')])) = Inr False"
    by simp
  from accept over bad absent show ?thesis by simp
qed

text \<open>
  The claim as stated, with the sum of the costs at most the budget, fails on float
  tables. A cost that is not a number is accepted under every budget, although it is
  not at most the budget: no comparison with it holds. And the costs 1e16, 1.0, 1.0,
  whose sum exceeds the budget 1e16 by 2, are accepted, because each addition of 1.0
  rounds back to 1e16.
\<close>

theorem budget_sum_counterexample:
  "validate_budget [''FresnoIrvinemotorhome'' \<mapsto> NaN] (Fin 10)
       (PList (map triple [(''Fresno'', ''Irvine'', ''motorhome'')])) = Inr True
   \<and> \<not> fle (running_total [NaN]) (Fin 10)
   \<and> validate_budget
         [''ABcar'' \<mapsto> Fin 10000000000000000, ''BCcar'' \<mapsto> Fin 1, ''CDcar'' \<mapsto> Fin 1]
         (Fin 10000000000000000)
         (PList (map triple [(''A'', ''B'', ''car''), (''B'', ''C'', ''car''), (''C'', ''D'', ''car'')]))
       = Inr True
   \<and> \<not> (10000000000000000 + 1 + 1 \<le> (10000000000000000 :: rat))"
  by (simp add: validate_budget_def triple_def unpack3_def cost_lookup_def dict_get_def
        running_total_def to_double_big to_double_big_1)

text \<open>
  Claim C3. The claim asks for a boolean on every list of tuples and for false when a
  step has not exactly three fields. The scorer reads the second field of the last
  step before the connectivity check rejects steps of the wrong length: on the one-step
  candidate \<open>[("Irvine",)]\<close>, and on every candidate whose last tuple has fewer than
  two fields, it raises \<open>IndexError\<close>, for every ground truth.
\<close>

theorem score_travel_eval_short_last_step:
  "score_travel_eval c (PList [PTuple [PStr ''Irvine'']]) = Inl IndexError
   \<and> (xs \<noteq> [] \<and> last xs = PTuple t \<and> length t < 2
        \<longrightarrow> score_travel_eval c (PList xs) = Inl IndexError)"
  by (simp add: short_last_step)

theorem score_travel_eval_short_last_step_witness:
  "score_travel_eval example_constraint
     (PList [triple (''Fresno'', ''Irvine'', ''motorhome''), PTuple []]) = Inl IndexError"
  using score_travel_eval_short_last_step
          [of example_constraint "[triple (''Fresno'', ''Irvine'', ''motorhome''), PTuple []]" "[]"]
  by simp


section \<open>The counting scorer\<close>

lemma list_all_zip_nth:
  "list_all P (zip xs ys) = (\<forall>i < min (length xs) (length ys). P (xs ! i, ys ! i))"
  by (auto simp: list_all_iff set_zip)

text \<open>
  Claim C8. On a non-empty candidate sequence the counting scorer returns true exactly
  when every candidate element equals the ground-truth value at the same position, for
  the positions below the length of the shorter of the two sequences; what lies beyond
  is ignored. The candidate 3, 4 against the values 3, 4, 5 therefore scores true, and
  an empty candidate scores false.
\<close>

theorem score_count_eval_zip_truncation:
  "(xs \<noteq> [] \<longrightarrow>
      score_count_eval m (PList xs) =
        Inr (\<forall>i < min (length xs) (length m). xs ! i = PInt (snd (m ! i))))
   \<and> score_count_eval [(''a'', 3), (''b'', 4), (''c'', 5)] (PList [PInt 3, PInt 4]) = Inr True
   \<and> score_count_eval m (PList []) = Inr False"
proof (intro conjI impI)
  assume ne: "xs \<noteq> []"
  have "list_all (\<lambda>(a1, a2). a1 = PInt a2) (zip xs (map snd m))
          = (\<forall>i < min (length xs) (length m). xs ! i = PInt (snd (m ! i)))"
    by (simp add: list_all_zip_nth)
  with ne show "score_count_eval m (PList xs) =
        Inr (\<forall>i < min (length xs) (length m). xs ! i = PInt (snd (m ! i)))"
    by (simp add: score_count_eval_def)
next
  show "score_count_eval [(''a'', 3), (''b'', 4), (''c'', 5)] (PList [PInt 3, PInt 4]) = Inr True"
    by (simp add: score_count_eval_def)
next
  show "score_count_eval m (PList []) = Inr False"
    by (simp add: score_count_eval_def)
qed

theorem score_count_eval_zip_truncation_witness:
  "score_count_eval [(''a'', 3), (''b'', 4)] (PList [PInt 3, PInt 5, PInt 7]) = Inr False"
proof -
  have ne: "[PInt 3, PInt 5, PInt 7] \<noteq> []" by simp
  have "score_count_eval [(''a'', 3), (''b'', 4)] (PList [PInt 3, PInt 5, PInt 7]) =
        Inr (\<forall>i < min (length [PInt 3, PInt 5, PInt 7]) (length [(''a'', 3::int), (''b'', 4)]).
               [PInt 3, PInt 5, PInt 7] ! i = PInt (snd ([(''a'', 3::int), (''b'', 4)] ! i)))"
    using score_count_eval_zip_truncation
      [of "[PInt 3, PInt 5, PInt 7]" "[(''a'', 3), (''b'', 4)]"] ne by blast
  moreover have "\<not> (\<forall>i < min (length [PInt 3, PInt 5, PInt 7]) (length [(''a'', 3::int), (''b'', 4)]).
               [PInt 3, PInt 5, PInt 7] ! i = PInt (snd ([(''a'', 3::int), (''b'', 4)] ! i)))"
    by (auto intro!: exI [of _ 1])
  ultimately show ?thesis by simp
qed

text \<open>
  Claim C10. On a non-empty candidate the counting scorer returns true when the
  ground-truth mapping is empty, and when the mapping has fewer values than the
  candidate has elements and the candidate starts with these values: the elements
  beyond them are never looked at.
\<close>

theorem score_count_eval_extra_elements:
  "(xs \<noteq> [] \<longrightarrow> score_count_eval [] (PList xs) = Inr True)
   \<and> (xs \<noteq> [] \<and> length m < length xs \<and> take (length m) xs = map (\<lambda>kv. PInt (snd kv)) m
        \<longrightarrow> score_count_eval m (PList xs) = Inr True)"
proof (intro conjI impI)
  assume "xs \<noteq> []"
  then show "score_count_eval [] (PList xs) = Inr True"
    by (simp add: score_count_eval_def)
next
  assume a: "xs \<noteq> [] \<and> length m < length xs \<and> take (length m) xs = map (\<lambda>kv. PInt (snd kv)) m"
  have "xs ! i = PInt (snd (m ! i))" if "i < length m" for i
  proof -
    have "xs ! i = take (length m) xs ! i" using that by simp
    also have "\<dots> = map (\<lambda>kv. PInt (snd kv)) m ! i" using a by simp
    also have "\<dots> = PInt (snd (m ! i))" using that by simp
    finally show ?thesis .
  qed
  then have "list_all (\<lambda>(a1, a2). a1 = PInt a2) (zip xs (map snd m))"
    by (simp add: list_all_zip_nth)
  with a show "score_count_eval m (PList xs) = Inr True"
    by (simp add: score_count_eval_def)
qed

theorem score_count_eval_extra_elements_witness:
  "score_count_eval [] (PList [PInt 7]) = Inr True
   \<and> score_count_eval [(''a'', 3)] (PList [PInt 3, PInt 9, PNone]) = Inr True"
  using score_count_eval_extra_elements [of "[PInt 7]" "[]"]
        score_count_eval_extra_elements [of "[PInt 3, PInt 9, PNone]" "[(''a'', 3)]"]
  by simp


section \<open>Scoring the sentinels\<close>

text \<open>
  Claim C9, as amended. The sentinel of a task scores false under \<open>score_eval\<close> in these
  cases: on a counting task whose ground-truth mapping is not empty (for the sentinel
  holding the empty string and for the one holding \<open>None\<close>), on a mathgap task whose
  ground truth is not \<open>None\<close>, on every travel task (the empty plan), on every logic
  task (the empty string); and under a tag that \<open>score_eval\<close> does not know, every
  candidate scores false.
\<close>

theorem score_eval_sentinel_false:
  "(task e \<in> set [''character_count'', ''word_count''] \<and> answer e = Count_answer m \<and> m \<noteq> []
      \<longrightarrow> score_eval e (PList [PStr []]) = Inr False \<and> score_eval e (PList [PNone]) = Inr False)
   \<and> (task e \<in> set [''mathgap_diverse'', ''mathgap_irrelevant''] \<and> answer e = Mathgap_answer v
        \<and> v \<noteq> PNone
      \<longrightarrow> score_eval e PNone = Inr False)
   \<and> (task e = ''travel'' \<and> answer e = Travel_answer c
      \<longrightarrow> score_eval e (PList []) = Inr False)
   \<and> (task e \<in> set [''logic_negation'', ''logic_evaluation''] \<and> answer e = Logic_answer s
      \<longrightarrow> score_eval e (PStr []) = Inr False)
   \<and> (task e \<notin> set task_tags \<longrightarrow> score_eval e cand = Inr False)"
proof (intro conjI impI)
  assume a: "task e \<in> set [''character_count'', ''word_count''] \<and> answer e = Count_answer m \<and> m \<noteq> []"
  then obtain p rest where m: "m = p # rest" by (cases m) auto
  from a show "score_eval e (PList [PStr []]) = Inr False"
    by (auto simp: score_eval_def score_count_eval_def m)
  from a show "score_eval e (PList [PNone]) = Inr False"
    by (auto simp: score_eval_def score_count_eval_def m)
next
  assume "task e \<in> set [''mathgap_diverse'', ''mathgap_irrelevant''] \<and> answer e = Mathgap_answer v
        \<and> v \<noteq> PNone"
  then show "score_eval e PNone = Inr False"
    by (auto simp: score_eval_def score_mathgap_eval_def)
next
  assume "task e = ''travel'' \<and> answer e = Travel_answer c"
  then show "score_eval e (PList []) = Inr False"
    by (simp add: score_eval_def score_travel_eval_def)
next
  assume "task e \<in> set [''logic_negation'', ''logic_evaluation''] \<and> answer e = Logic_answer s"
  then show "score_eval e (PStr []) = Inr False"
    by (auto simp: score_eval_def score_logic_eval_def)
next
  assume "task e \<notin> set task_tags"
  then show "score_eval e cand = Inr False"
    by (simp add: score_eval_def task_tags_def)
qed

theorem score_eval_sentinel_false_witness:
  "score_eval \<lparr>task = ''word_count'', k = Some 1, answer = Count_answer [(''a'', 3)]\<rparr>
       (PList [PStr []]) = Inr False
   \<and> score_eval \<lparr>task = ''mathgap_diverse'', k = None, answer = Mathgap_answer (PInt 42)\<rparr>
       PNone = Inr False
   \<and> score_eval \<lparr>task = ''travel'', k = None, answer = Travel_answer example_constraint\<rparr>
       (PList []) = Inr False
   \<and> score_eval \<lparr>task = ''logic_negation'', k = None, answer = Logic_answer ''A''\<rparr>
       (PStr []) = Inr False
   \<and> score_eval \<lparr>task = ''unpuzzle'', k = None, answer = Logic_answer ''A''\<rparr>
       (PStr []) = Inr False"
  using score_eval_sentinel_false
          [of "\<lparr>task = ''word_count'', k = Some 1, answer = Count_answer [(''a'', 3)]\<rparr>"
              "[(''a'', 3)]"]
        score_eval_sentinel_false
          [of "\<lparr>task = ''mathgap_diverse'', k = None, answer = Mathgap_answer (PInt 42)\<rparr>"
              _ "PInt 42"]
        score_eval_sentinel_false
          [of "\<lparr>task = ''travel'', k = None, answer = Travel_answer example_constraint\<rparr>"
              _ _ example_constraint]
        score_eval_sentinel_false
          [of "\<lparr>task = ''logic_negation'', k = None, answer = Logic_answer ''A''\<rparr>"
              _ _ _ "''A''"]
        score_eval_sentinel_false
          [of "\<lparr>task = ''unpuzzle'', k = None, answer = Logic_answer ''A''\<rparr>"
              _ _ _ _ "PStr []"]
  by (simp add: task_tags_def)

text \<open>
  The claim as stated, for every stored ground truth, fails on a counting task with an
  empty mapping and on a mathgap task whose ground truth is \<open>None\<close>: both sentinels
  score true.
\<close>

theorem score_eval_sentinel_counterexample:
  "score_eval \<lparr>task = ''word_count'', k = Some 1, answer = Count_answer []\<rparr>
       (PList [PStr []]) = Inr True
   \<and> score_eval \<lparr>task = ''mathgap_diverse'', k = None, answer = Mathgap_answer PNone\<rparr>
       PNone = Inr True"
  by (simp add: score_eval_def score_count_eval_def score_mathgap_eval_def)


section \<open>Properties of the matcher\<close>

lemmas pat_defs = lit_def many1_def many1_lazy_def group_def digits_def letter_def

lemma minlen_append: "minlen (a @ b) = minlen a + minlen b"
  by (induction a rule: minlen.induct) simp_all

text \<open>A match consumes at least one character for every \<open>Chr\<close> item of the pattern.\<close>

lemma match_at_consumes:
  "match_at p s = Some (opened, shut, rest) \<Longrightarrow> length rest + minlen p \<le> length s"
proof (induction p s arbitrary: opened shut rest rule: match_at.induct)
  case (1 s)
  then show ?case by simp
next
  case (2 c p s)
  then show ?case by (cases s) (auto split: if_splits)
next
  case (3 c p s)
  show ?case
  proof (cases s)
    case Nil
    with 3 show ?thesis by simp
  next
    case (Cons x xs)
    show ?thesis
    proof (cases "in_cls c x")
      case True
      show ?thesis
      proof (cases "match_at (Star c # p) xs")
        case None
        with 3 Cons True show ?thesis by simp
      next
        case (Some r)
        with 3(5) Cons True have "match_at (Star c # p) xs = Some (opened, shut, rest)" by simp
        from 3(2) [OF Cons True this] Cons show ?thesis by simp
      qed
    next
      case False
      with 3 Cons show ?thesis by simp
    qed
  qed
next
  case (4 c p s)
  show ?case
  proof (cases "match_at p s")
    case (Some r)
    with 4 show ?thesis by simp
  next
    case None
    with 4(3) obtain x xs where s: "s = x # xs" and c: "in_cls c x"
      and m: "match_at (StarLazy c # p) xs = Some (opened, shut, rest)"
      by (cases s) (auto split: if_splits)
    from 4(2) [OF None s c m] s show ?thesis by simp
  qed
next
  case (5 body p s)
  show ?case
  proof (cases "match_at (body @ p) s")
    case None
    with 5 show ?thesis by simp
  next
    case (Some r)
    with 5(3) have "match_at (body @ p) s = Some (opened, shut, rest)" by simp
    from 5(1) [OF this] show ?thesis by (simp add: minlen_append)
  qed
next
  case (6 p s)
  then show ?case by (cases "match_at p s") auto
next
  case (7 p s)
  then show ?case by (cases "match_at p s") auto
next
  case (8 p s)
  then show ?case by (auto split: if_splits)
qed

lemma search_consumes:
  "search p s = Some (pre, opened, shut, rest) \<Longrightarrow> 0 < minlen p \<Longrightarrow> length rest < length s"
proof (induction s arbitrary: pre)
  case Nil
  then show ?case by (auto dest: match_at_consumes)
next
  case (Cons x xs)
  show ?case
  proof (cases "match_at p (x # xs)")
    case None
    with Cons.prems(1) obtain pre' where "search p xs = Some (pre', opened, shut, rest)"
      by auto
    from Cons.IH [OF this Cons.prems(2)] show ?thesis by simp
  next
    case (Some r)
    with Cons.prems(1) have "match_at p (x # xs) = Some (opened, shut, rest)" by simp
    from match_at_consumes [OF this] Cons.prems(2) show ?thesis by simp
  qed
qed

text \<open>
  The patterns that the source hands to \<open>findall\<close> and \<open>sub\<close> consume at least one
  character, so both always resume on a shorter text.
\<close>

lemma patterns_consume:
  assumes "p \<in> set ([code_block_re, paren_group_re, mathgap_re] @ find_answers
                      @ [lit ''#'' @ digits, digits @ lit ''#'', lit ''**'' @ digits,
                         digits @ lit ''**'', lit [CHR 0x5C] @ digits, digits @ lit [CHR 0x5C]])"
    and "search p s = Some (pre, opened, shut, rest)"
  shows "length rest < length s"
proof -
  from assms(1) have "0 < minlen p"
    by (auto simp: code_block_re_def paren_group_re_def mathgap_re_def find_answers_def pat_defs)
  with assms(2) show ?thesis by (rule search_consumes)
qed

text \<open>Literal text at the head of a pattern.\<close>

lemma match_at_lit:
  "match_at (lit w @ p) s = (if prefix w s then match_at p (drop (length w) s) else None)"
proof (induction w arbitrary: s)
  case Nil
  show ?case by (simp add: lit_def)
next
  case (Cons c w)
  from Cons [unfolded lit_def] show ?case
    by (cases s) (auto simp: lit_def)
qed

lemma match_at_Star_suffix:
  "match_at (Star c # q) s = Some res \<Longrightarrow> \<exists>s1 s2. s = s1 @ s2 \<and> match_at q s2 = Some res"
proof (induction s)
  case Nil
  then show ?case by simp
next
  case (Cons x xs)
  show ?case
  proof (cases "in_cls c x \<and> match_at (Star c # q) xs \<noteq> None")
    case True
    with Cons.prems have "match_at (Star c # q) xs = Some res" by auto
    from Cons.IH [OF this] obtain s1 s2 where "xs = s1 @ s2" "match_at q s2 = Some res"
      by blast
    then have "x # xs = (x # s1) @ s2 \<and> match_at q s2 = Some res" by simp
    then show ?thesis by blast
  next
    case False
    with Cons.prems have "match_at q (x # xs) = Some res"
      by (auto split: if_splits option.splits)
    then have "x # xs = [] @ (x # xs) \<and> match_at q (x # xs) = Some res" by simp
    then show ?thesis by blast
  qed
qed

lemma search_None:
  "(\<And>suf. suffix suf s \<Longrightarrow> match_at p suf = None) \<Longrightarrow> search p s = None"
proof (induction s)
  case Nil
  then show ?case by simp
next
  case (Cons x xs)
  have "match_at p (x # xs) = None" by (rule Cons.prems) simp
  moreover have "search p xs = None"
    by (rule Cons.IH) (simp add: Cons.prems suffix_Cons)
  ultimately show ?case by simp
qed


section \<open>Logic extraction\<close>

text \<open>The tag pattern matches only where the text \<open><answer>\<close> occurs.\<close>

lemma html_needs_tag:
  assumes "\<not> sublist ''<answer>'' r"
  shows "search extract_answer_html r = None"
proof (rule search_None)
  fix suf assume suf: "suffix suf r"
  show "match_at extract_answer_html suf = None"
  proof (rule ccontr)
    assume "match_at extract_answer_html suf \<noteq> None"
    then obtain res where
      "match_at (Star Dot # (lit ''<answer>'' @ letter @ lit ''</answer>'')) suf = Some res"
      by (auto simp: extract_answer_html_def)
    from match_at_Star_suffix [OF this] obtain s1 s2 where
      s: "suf = s1 @ s2" and m: "match_at (lit ''<answer>'' @ letter @ lit ''</answer>'') s2 = Some res"
      by blast
    from m have "prefix ''<answer>'' s2"
      by (simp add: match_at_lit del: match_at.simps split: if_splits)
    then obtain z where z: "s2 = ''<answer>'' @ z" by (auto simp: prefix_def)
    from suf obtain zs where zs: "r = zs @ suf" by (auto simp: suffix_def)
    have "r = (zs @ s1) @ ''<answer>'' @ z" by (simp add: zs s z)
    then have "sublist ''<answer>'' r" unfolding sublist_def by blast
    with assms show False by contradiction
  qed
qed

text \<open>The boxed pattern matches at a position exactly when a marker starts there.\<close>

lemma match_at_boxed:
  "match_at extract_answer_boxed s =
     (if \<exists>X \<in> set ''ABCD''. prefix (boxed_marker X) s
      then Some (Some (drop 6 s), Some (drop 7 s), drop 8 s) else None)"
proof -
  have "match_at extract_answer_boxed s =
          (if prefix ''boxed{'' s then match_at (letter @ lit ''}'') (drop 6 s) else None)"
    unfolding extract_answer_boxed_def by (simp only: match_at_lit) (simp add: eval_nat_numeral)
  also have "\<dots> = (if \<exists>X \<in> set ''ABCD''. prefix (boxed_marker X) s
      then Some (Some (drop 6 s), Some (drop 7 s), drop 8 s) else None)"
  proof (cases "prefix ''boxed{'' s")
    case False
    then have "\<not> prefix (boxed_marker X) s" for X
      by (auto simp: boxed_marker_def prefix_def)
    with False show ?thesis by simp
  next
    case True
    then obtain t where s: "s = ''boxed{'' @ t" by (auto simp: prefix_def)
    show ?thesis
    proof (cases t)
      case Nil
      then show ?thesis by (simp add: s letter_def group_def lit_def boxed_marker_def)
    next
      case (Cons X t')
      show ?thesis
      proof (cases t')
        case Nil
        then show ?thesis
          by (auto simp: s Cons letter_def group_def lit_def boxed_marker_def)
      next
        case (Cons Y t'')
        then show ?thesis
          by (auto simp: s \<open>t = X # t'\<close> letter_def group_def lit_def boxed_marker_def)
      qed
    qed
  qed
  finally show ?thesis .
qed

lemma take_append_le: "n \<le> length u \<Longrightarrow> take n (u @ v) = take n u"
  by simp

text \<open>The search stops at the leftmost marker.\<close>

lemma search_boxed_first:
  assumes L: "L \<in> set ''ABCD''"
    and none: "\<forall>X \<in> set ''ABCD''. \<not> sublist (boxed_marker X) (pre @ ''boxed{'' @ [L])"
  shows "search extract_answer_boxed (pre @ boxed_marker L @ post) =
           Some (pre, Some (L # CHR ''}'' # post), Some (CHR ''}'' # post), post)"
  using none
proof (induction pre)
  case Nil
  have "prefix (boxed_marker L) (boxed_marker L @ post)" by simp
  with L have "match_at extract_answer_boxed (boxed_marker L @ post) =
      Some (Some (drop 6 (boxed_marker L @ post)), Some (drop 7 (boxed_marker L @ post)),
            drop 8 (boxed_marker L @ post))"
    unfolding match_at_boxed by auto
  then have "match_at extract_answer_boxed (boxed_marker L @ post) =
      Some (Some (L # CHR ''}'' # post), Some (CHR ''}'' # post), post)"
    by (simp add: boxed_marker_def)
  then show ?case by (simp add: boxed_marker_def)
next
  case (Cons x pre')
  have fails: "match_at extract_answer_boxed (x # pre' @ boxed_marker L @ post) = None"
  proof (rule ccontr)
    assume "match_at extract_answer_boxed (x # pre' @ boxed_marker L @ post) \<noteq> None"
    then obtain X where X: "X \<in> set ''ABCD''"
      and p: "prefix (boxed_marker X) (x # pre' @ boxed_marker L @ post)"
      unfolding match_at_boxed by (auto split: if_splits)
    let ?u = "x # pre' @ ''boxed{'' @ [L]"
    have eq: "x # pre' @ boxed_marker L @ post = ?u @ ''}'' @ post"
      by (simp add: boxed_marker_def)
    from p have "prefix (boxed_marker X) (?u @ ''}'' @ post)"
      unfolding eq .
    then have "boxed_marker X = take (length (boxed_marker X)) (?u @ ''}'' @ post)"
      by (metis append_eq_conv_conj prefix_def)
    also have "length (boxed_marker X) = 8" by (simp add: boxed_marker_def)
    also have "take 8 (?u @ ''}'' @ post) = take 8 ?u"
      by (rule take_append_le) simp
    finally have "?u = [] @ boxed_marker X @ drop 8 ?u"
      by (metis append_Nil append_take_drop_id)
    then have "sublist (boxed_marker X) ((x # pre') @ ''boxed{'' @ [L])"
      unfolding sublist_def by (metis append_Cons)
    with Cons.prems X show False by blast
  qed
  have "\<forall>X \<in> set ''ABCD''. \<not> sublist (boxed_marker X) (pre' @ ''boxed{'' @ [L])"
  proof (intro ballI notI)
    fix X assume X: "X \<in> set ''ABCD''"
      and "sublist (boxed_marker X) (pre' @ ''boxed{'' @ [L])"
    then obtain ps ss where "pre' @ ''boxed{'' @ [L] = ps @ boxed_marker X @ ss"
      unfolding sublist_def by blast
    then have "(x # pre') @ ''boxed{'' @ [L] = (x # ps) @ boxed_marker X @ ss" by simp
    then have "sublist (boxed_marker X) ((x # pre') @ ''boxed{'' @ [L])"
      unfolding sublist_def by blast
    with Cons.prems X show False by blast
  qed
  from Cons.IH [OF this] fails show ?case by simp
qed

text \<open>The loop returns the capture of the first pattern of its list that matches.\<close>

lemma logic_loop_find:
  "logic_loop res r =
     (case List.find (\<lambda>re. search re r \<noteq> None) res of
        None \<Rightarrow> PStr []
      | Some re \<Rightarrow> capture (search re r))"
  by (induction res) (auto simp: capture_def split: option.splits)

text \<open>
  Claim C7, as amended. Logic extraction returns the capture of the first pattern, in
  the order tag, boxed marker, \<open>answer\<close> with a letter right after it, \<open>answer\<close> with a
  letter later on the line, that matches the response, and the empty string when none
  does. For every response without the text \<open><answer>\<close> whose leftmost boxed marker
  with a letter A to D is \<open>boxed{L}\<close>, the result is \<open>L\<close>, whatever plain \<open>answer: A\<close>
  phrase the response holds: it is \<open>B\<close> when the leftmost marker is \<open>boxed{B}\<close>.
\<close>

theorem extract_logic_eval_first_boxed:
  "extract_logic_eval r =
     (case List.find (\<lambda>re. search re r \<noteq> None)
             [extract_answer_html, extract_answer_boxed, extract_answer_sentence,
              extract_answer_sentence2] of
        None \<Rightarrow> PStr []
      | Some re \<Rightarrow> capture (search re r))
   \<and> (\<not> sublist ''<answer>'' (pre @ boxed_marker L @ post)
       \<and> L \<in> set ''ABCD''
       \<and> (\<forall>X \<in> set ''ABCD''. \<not> sublist (boxed_marker X) (pre @ ''boxed{'' @ [L]))
       \<longrightarrow> extract_logic_eval (pre @ boxed_marker L @ post) = PStr [L])"
proof (intro conjI impI)
  show "extract_logic_eval r =
     (case List.find (\<lambda>re. search re r \<noteq> None)
             [extract_answer_html, extract_answer_boxed, extract_answer_sentence,
              extract_answer_sentence2] of
        None \<Rightarrow> PStr []
      | Some re \<Rightarrow> capture (search re r))"
    unfolding extract_logic_eval_def compiled_res_def by (rule logic_loop_find)
next
  assume a: "\<not> sublist ''<answer>'' (pre @ boxed_marker L @ post)
   \<and> L \<in> set ''ABCD''
   \<and> (\<forall>X \<in> set ''ABCD''. \<not> sublist (boxed_marker X) (pre @ ''boxed{'' @ [L]))"
  then have html: "search extract_answer_html (pre @ boxed_marker L @ post) = None"
    by (simp add: html_needs_tag)
  from a have boxed: "search extract_answer_boxed (pre @ boxed_marker L @ post) =
           Some (pre, Some (L # CHR ''}'' # post), Some (CHR ''}'' # post), post)"
    by (simp add: search_boxed_first)
  show "extract_logic_eval (pre @ boxed_marker L @ post) = PStr [L]"
    by (simp add: extract_logic_eval_def compiled_res_def html boxed group1_def)
qed

theorem extract_logic_eval_first_boxed_witness:
  "extract_logic_eval ''The answer: A. Final: boxed{B}'' = PStr ''B''"
proof -
  have "\<not> sublist ''<answer>'' (''The answer: A. Final: '' @ boxed_marker CHR ''B'' @ [])
   \<and> CHR ''B'' \<in> set ''ABCD''
   \<and> (\<forall>X \<in> set ''ABCD''.
         \<not> sublist (boxed_marker X) (''The answer: A. Final: '' @ ''boxed{'' @ [CHR ''B'']))"
    by (simp add: boxed_marker_def sublist_Cons_right)
  with extract_logic_eval_first_boxed
         [of "[]" "''The answer: A. Final: ''" "CHR ''B''" "[]", THEN conjunct2]
  show ?thesis by (simp add: boxed_marker_def)
qed

text \<open>
  The claim as stated fails on a response that holds \<open>boxed{B}\<close>, \<open>answer: A\<close> and no
  tag, but another boxed marker before \<open>boxed{B}\<close>: the search returns the leftmost one.
\<close>

theorem extract_logic_eval_boxed_counterexample:
  "sublist ''boxed{B}'' ''boxed{C} boxed{B} answer: A''
   \<and> sublist ''answer: A'' ''boxed{C} boxed{B} answer: A''
   \<and> \<not> sublist ''<answer>'' ''boxed{C} boxed{B} answer: A''
   \<and> extract_logic_eval ''boxed{C} boxed{B} answer: A'' = PStr ''C''"
  by (simp add: sublist_Cons_right extract_logic_eval_def compiled_res_def extract_answer_html_def
        extract_answer_boxed_def pat_defs group1_def)


section \<open>Open-ended extraction\<close>

lemma first_answer_filter:
  "first_answer ms =
     (case filter (\<lambda>s. s \<notin> set [''your answer'', ''answer'']) ms of
        [] \<Rightarrow> None
      | s # rest \<Rightarrow> Some s)"
  by (induction ms) auto

lemma unpuzzle_loop_concat:
  "unpuzzle_loop ps r =
     (case filter (\<lambda>s. s \<notin> set [''your answer'', ''answer''])
             (concat (map (\<lambda>p. findall p r) ps)) of
        [] \<Rightarrow> []
      | s # rest \<Rightarrow> s)"
proof (induction ps)
  case Nil
  show ?case by simp
next
  case (Cons p ps)
  let ?ok = "\<lambda>s. s \<notin> set [''your answer'', ''answer'']"
  show ?case
  proof (cases "filter ?ok (findall p r)")
    case Nil
    then have fa: "first_answer (findall p r) = None"
      by (simp only: first_answer_filter list.case)
    have "unpuzzle_loop (p # ps) r = unpuzzle_loop ps r"
      by (simp only: unpuzzle_loop.simps Let_def fa option.case if_cancel)
    also have "\<dots> = (case filter ?ok (concat (map (\<lambda>p. findall p r) ps)) of
        [] \<Rightarrow> [] | s # rest \<Rightarrow> s)"
      by (rule Cons.IH)
    also have "filter ?ok (concat (map (\<lambda>p. findall p r) ps))
             = filter ?ok (concat (map (\<lambda>p. findall p r) (p # ps)))"
      using Nil by (simp only: list.map concat.simps filter_append append_Nil)
    finally show ?thesis .
  next
    case (Cons s rest)
    then have fa: "first_answer (findall p r) = Some s"
      by (simp only: first_answer_filter list.case)
    from Cons have ne: "findall p r \<noteq> []"
      by (cases "findall p r") simp_all
    have "unpuzzle_loop (p # ps) r = s"
      using ne by (simp add: Let_def fa)
    moreover have "filter ?ok (concat (map (\<lambda>p. findall p r) (p # ps)))
             = s # (rest @ filter ?ok (concat (map (\<lambda>p. findall p r) ps)))"
      using Cons by (simp only: list.map concat.simps filter_append append_Cons)
    ultimately show ?thesis by (simp only: list.case)
  qed
qed

text \<open>
  Claim C6, as amended. Open-ended extraction returns the first capture that is no
  placeholder (\<open>your answer\<close>, \<open>answer\<close>) in the sequence of all captures, taken pattern
  after pattern in the order of the list and match after match in the response, and
  the empty string when there is none. A pattern all of whose captures are
  placeholders does not end the extraction: the later patterns are still tried.
\<close>

theorem extract_unpuzzle_eval_first_capture:
  "extract_unpuzzle_eval r =
     (case filter (\<lambda>s. s \<notin> set [''your answer'', ''answer''])
             (concat (map (\<lambda>p. findall p r) find_answers)) of
        [] \<Rightarrow> []
      | s # rest \<Rightarrow> s)"
  unfolding extract_unpuzzle_eval_def by (rule unpuzzle_loop_concat)

theorem extract_unpuzzle_eval_first_capture_witness:
  "extract_unpuzzle_eval ''boxed{your answer} so **Answer: 42**'' = ''42''"
proof -
  have "filter (\<lambda>s. s \<notin> set [''your answer'', ''answer''])
          (concat (map (\<lambda>p. findall p ''boxed{your answer} so **Answer: 42**'') find_answers))
        = [''42'', ''42*'']"
    by (simp add: find_answers_def pat_defs group1_def findall.simps)
  then show ?thesis
    by (simp only: extract_unpuzzle_eval_first_capture list.case)
qed

text \<open>
  The claim as stated fails on the response below: the first pattern of the list that
  matches is the boxed one, its only capture is the placeholder \<open>answer\<close>, and the result
  is the capture \<open>foo\<close> of the sixth pattern, not the empty string.
\<close>

theorem extract_unpuzzle_eval_counterexample:
  "findall (find_answers ! 0) ''boxed{answer} Answer: foo.'' = [''answer'']
   \<and> findall (find_answers ! 5) ''boxed{answer} Answer: foo.'' = [''foo'']
   \<and> extract_unpuzzle_eval ''boxed{answer} Answer: foo.'' = ''foo''"
  by (simp add: extract_unpuzzle_eval_def find_answers_def pat_defs group1_def findall.simps)


section \<open>Extraction that raises\<close>

lemma no_multi_match: "search count_multi_re ''no counts here'' = None"
  by (simp add: count_multi_re_def pat_defs)

text \<open>
  Claim C4. The claim asks for a value on every tag, \<open>k\<close> and response. On a counting
  task with \<open>k\<close> other than 1 and a response that the multi-answer pattern does not
  match, \<open>extract_count_eval\<close> reaches \<open>return [ans] * k\<close> with \<open>ans\<close> unassigned and
  raises \<open>UnboundLocalError\<close>, and \<open>extract_eval\<close> with it, whatever
  \<open>ast.literal_eval\<close> does.
\<close>

theorem extract_count_eval_unbound_ans:
  "extract_eval literal_eval \<lparr>task = ''word_count'', k = Some 2, answer = gt\<rparr> ''no counts here''
       = Inl UnboundLocalError
   \<and> (k' \<noteq> 1 \<and> search count_multi_re response = None
        \<longrightarrow> extract_count_eval response k' = Inl UnboundLocalError)"
proof (intro conjI impI)
  have "extract_count_eval ''no counts here'' 2 = Inl UnboundLocalError"
    unfolding extract_count_eval_def no_multi_match by simp
  then show "extract_eval literal_eval \<lparr>task = ''word_count'', k = Some 2, answer = gt\<rparr>
      ''no counts here'' = Inl UnboundLocalError"
    by (simp add: extract_eval_def)
next
  assume "k' \<noteq> 1 \<and> search count_multi_re response = None"
  then show "extract_count_eval response k' = Inl UnboundLocalError"
    by (simp add: extract_count_eval_def)
qed

theorem extract_count_eval_unbound_ans_witness:
  "extract_count_eval ''no counts here'' 3 = Inl UnboundLocalError"
  using extract_count_eval_unbound_ans [of _ _ 3 "''no counts here''"] no_multi_match
  by simp

lemma empty_block: "findall code_block_re ''```python\<newline>[]\<newline>```'' = [''[]\<newline>'']"
  by (simp add: code_block_re_def pat_defs group1_def findall.simps)

lemma empty_block_text: "insert_quotes_in_tuples (str_strip ''[]\<newline>'') = ''[]''"
  by (simp add: insert_quotes_in_tuples_def paren_group_re_def pat_defs str_strip_def
        strip_chars_def whitespace_def sub.simps)

text \<open>
  Claim C5. The claim asks for an empty plan whenever the parse fails. On a response
  whose last python block holds the empty list, \<open>ast.literal_eval\<close> returns \<open>[]\<close>, the
  subscription \<open>travel_plan[0]\<close> raises \<open>IndexError\<close>, and the \<open>except SyntaxError\<close> does
  not catch it.
\<close>

theorem extract_travel_eval_empty_list:
  "literal_eval ''[]'' = Inr (PList [])
     \<longrightarrow> extract_travel_eval literal_eval ''```python\<newline>[]\<newline>```'' = Inl IndexError"
proof
  assume "literal_eval ''[]'' = Inr (PList [])"
  then show "extract_travel_eval literal_eval ''```python\<newline>[]\<newline>```'' = Inl IndexError"
    unfolding extract_travel_eval_def empty_block
    by (simp add: empty_block_text py_getitem_def)
qed

theorem extract_travel_eval_empty_list_witness:
  "extract_travel_eval (\<lambda>s. if s = ''[]'' then Inr (PList []) else Inl SyntaxError)
     ''```python\<newline>[]\<newline>```'' = Inl IndexError"
  using extract_travel_eval_empty_list
          [of "\<lambda>s. if s = ''[]'' then Inr (PList []) else Inl SyntaxError"]
  by simp

end
